theory Spec2Isabelle
  imports Complex_Main "HOL-Library.Multiset"
begin

section \<open>Shared data: structured values and thrown errors\<close>

text \<open>
  Tool inputs and schemas are typed \<open>any\<close> in the source. They are carried around and
  never inspected by the code modelled here, so a plain tree of JSON values stands for them.
\<close>

datatype json =
    JNull
  | JBool bool
  | JNum rat
  | JStr string
  | JArr "json list"
  | JObj "(string \<times> json) list"

text \<open>
  A thrown JavaScript \<open>Error\<close> is represented by its \<open>message\<close>. An empty message stands
  for every falsy one (\<open>undefined\<close> included), which is all the source distinguishes
  (\<open>error.message || '...'\<close>).
\<close>

datatype error = Error string

fun message :: "error \<Rightarrow> string" where
  "message (Error m) = m"

text \<open>JavaScript truthiness of a string, and of an optional string.\<close>

definition truthy :: "string \<Rightarrow> bool" where
  "truthy s = (s \<noteq> [])"

fun truthy_opt :: "string option \<Rightarrow> bool" where
  "truthy_opt None = False"
| "truthy_opt (Some s) = truthy s"

text \<open>\<open>a || b\<close> on an optional string with a string default.\<close>

fun or_else :: "string option \<Rightarrow> string \<Rightarrow> string" where
  "or_else None d = d"
| "or_else (Some s) d = (if truthy s then s else d)"

section \<open>The LLM service (llmService.ts)\<close>

datatype provider = claude | manus

record LLMConfig =
  provider :: provider
  anthropicApiKey :: "string option"
  model :: "string option"

datatype role = system | user | assistant | tool

record LLMToolCall =
  tc_id :: string
  tc_name :: string
  tc_input :: json

record LLMMessage =
  role :: role
  content :: string
  tool_call_id :: "string option"
  name :: "string option"
  tool_calls :: "LLMToolCall list option"

record LLMTool =
  tool_name :: string
  description :: string
  input_schema :: json

record LLMResponse =
  r_content :: string
  toolCalls :: "LLMToolCall list option"
  stopReason :: string

subsection \<open>Protocol A: the Anthropic wire format\<close>

text \<open>
  Content blocks of the Anthropic protocol. The same three block shapes occur in requests
  (\<open>TextBlockParam\<close>, \<open>ToolUseBlockParam\<close>, \<open>ToolResultBlockParam\<close>) and, for the first
  two, in responses.
\<close>

datatype content_block =
    text_block string
  | tool_use string string json
  | tool_result string string

datatype message_content = plain string | blocks "content_block list"

datatype wire_role = wire_user | wire_assistant

record MessageParam =
  mp_role :: wire_role
  mp_content :: message_content

record AnthropicTool =
  at_name :: string
  at_description :: string
  at_input_schema :: json

record AnthropicRequest =
  rq_model :: string
  rq_max_tokens :: nat
  rq_system :: string
  rq_messages :: "MessageParam list"
  rq_tools :: "AnthropicTool list"

record AnthropicResponse =
  rs_content :: "content_block list"
  rs_stop_reason :: "string option"

definition convertToolToAnthropic :: "LLMTool \<Rightarrow> AnthropicTool" where
  "convertToolToAnthropic t =
     \<lparr>at_name = tool_name t, at_description = description t, at_input_schema = input_schema t\<rparr>"

text \<open>One \<open>tool_result\<close> block per agnostic tool message (the body of the inner \<open>while\<close>).\<close>

definition toolResultBlock :: "LLMMessage \<Rightarrow> content_block" where
  "toolResultBlock toolMsg =
     tool_result (or_else (tool_call_id toolMsg) ''unknown'') (content toolMsg)"

definition toolUseBlock :: "LLMToolCall \<Rightarrow> content_block" where
  "toolUseBlock tc = tool_use (tc_id tc) (tc_name tc) (tc_input tc)"

text \<open>
  The content blocks built for an assistant message that carries tool calls: an optional
  text block (only when the text is non-empty), then one \<open>tool_use\<close> block per call.
\<close>

definition contentBlocks :: "string \<Rightarrow> LLMToolCall list \<Rightarrow> content_block list" where
  "contentBlocks txt tcs =
     (if truthy txt then [text_block txt] else []) @ map toolUseBlock tcs"

definition assistantParam :: "LLMMessage \<Rightarrow> MessageParam" where
  "assistantParam msg =
     (case tool_calls msg of
        Some tcs \<Rightarrow>
          (if length tcs > 0
           then \<lparr>mp_role = wire_assistant, mp_content = blocks (contentBlocks (content msg) tcs)\<rparr>
           else \<lparr>mp_role = wire_assistant, mp_content = plain (content msg)\<rparr>)
      | None \<Rightarrow> \<lparr>mp_role = wire_assistant, mp_content = plain (content msg)\<rparr>)"

definition is_tool :: "LLMMessage \<Rightarrow> bool" where
  "is_tool m = (role m = tool)"

text \<open>
  The \<open>for\<close> loop of \<open>callClaude\<close> over \<open>conversationMessages\<close>. At a tool message the
  inner \<open>while\<close> consumes the whole run of consecutive tool messages (\<open>takeWhile\<close>) into
  one user message and the outer index jumps behind the run (\<open>dropWhile\<close>).
\<close>

function anthropicMessages :: "LLMMessage list \<Rightarrow> MessageParam list" where
  "anthropicMessages [] = []"
| "anthropicMessages (msg # rest) =
     (if role msg = tool then
        \<lparr>mp_role = wire_user,
         mp_content = blocks (map toolResultBlock (msg # takeWhile is_tool rest))\<rparr>
          # anthropicMessages (dropWhile is_tool rest)
      else if role msg = assistant then
        assistantParam msg # anthropicMessages rest
      else
        \<lparr>mp_role = wire_user, mp_content = plain (content msg)\<rparr> # anthropicMessages rest)"
  by pat_completeness auto
termination
  by (relation "measure length") (auto simp: less_Suc_eq_le length_dropWhile_le)

text \<open>\<open>Array.prototype.join\<close>.\<close>

fun join :: "string \<Rightarrow> string list \<Rightarrow> string" where
  "join sep [] = []"
| "join sep [x] = x"
| "join sep (x # y # ys) = x @ sep @ join sep (y # ys)"

definition buildRequest :: "LLMMessage list \<Rightarrow> LLMTool list \<Rightarrow> LLMConfig \<Rightarrow> AnthropicRequest" where
  "buildRequest messages tools config =
     (let systemMessages = filter (\<lambda>m. role m = system) messages;
          conversationMessages = filter (\<lambda>m. role m \<noteq> system) messages
      in \<lparr>rq_model = or_else (model config) ''claude-opus-4-20250514'',
          rq_max_tokens = 4096,
          rq_system = join [CHR 0x0A, CHR 0x0A] (map content systemMessages),
          rq_messages = anthropicMessages conversationMessages,
          rq_tools = map convertToolToAnthropic tools\<rparr>)"

text \<open>
  Reading a reply: the loop over \<open>response.content\<close> with its two accumulators
  \<open>textContent\<close> and \<open>toolCalls\<close>; blocks of any other type are skipped.
\<close>

fun extractBlocks :: "content_block list \<Rightarrow> string \<Rightarrow> LLMToolCall list \<Rightarrow> string \<times> LLMToolCall list" where
  "extractBlocks [] textContent tcs = (textContent, tcs)"
| "extractBlocks (text_block t # bs) textContent tcs = extractBlocks bs (textContent @ t) tcs"
| "extractBlocks (tool_use i n inp # bs) textContent tcs =
     extractBlocks bs textContent (tcs @ [\<lparr>tc_id = i, tc_name = n, tc_input = inp\<rparr>])"
| "extractBlocks (tool_result i c # bs) textContent tcs = extractBlocks bs textContent tcs"

definition parseResponse :: "AnthropicResponse \<Rightarrow> LLMResponse" where
  "parseResponse response =
     (case extractBlocks (rs_content response) [] [] of
        (textContent, tcs) \<Rightarrow>
          \<lparr>r_content = textContent,
           toolCalls = (if length tcs > 0 then Some tcs else None),
           stopReason = or_else (rs_stop_reason response) ''end_turn''\<rparr>)"

text \<open>
  \<open>callClaude\<close>. The network call \<open>client.messages.create\<close> of the Anthropic SDK is the
  parameter \<open>create\<close>: it receives the API key the client was built with and the request,
  and either throws or returns a response.
\<close>

definition callClaude ::
  "(string option \<Rightarrow> AnthropicRequest \<Rightarrow> error + AnthropicResponse) \<Rightarrow>
   LLMMessage list \<Rightarrow> LLMTool list \<Rightarrow> LLMConfig \<Rightarrow> error + LLMResponse" where
  "callClaude create messages tools config =
     (case create (anthropicApiKey config) (buildRequest messages tools config) of
        Inl e \<Rightarrow> Inl e
      | Inr response \<Rightarrow> Inr (parseResponse response))"

subsection \<open>Protocol B: the flat (OpenAI-style) wire format\<close>

text \<open>
  The module \<open>_core/llm\<close> (\<open>invokeLLM\<close> and its types) is outside the modelled sources.
  The records below hold exactly the fields \<open>callManus\<close> writes and reads.
\<close>

record OpenAIMessage =
  om_role :: role
  om_content :: string
  om_tool_call_id :: "string option"
  om_name :: "string option"

record OpenAITool =
  ot_name :: string
  ot_description :: string
  ot_parameters :: json

record InvokeParams =
  ip_messages :: "OpenAIMessage list"
  ip_tools :: "OpenAITool list"
  ip_toolChoice :: string
  ip_maxTokens :: nat

record OpenAIToolCall =
  otc_id :: string
  otc_function_name :: string
  otc_function_arguments :: string

record OpenAIChoice =
  ch_content :: "string + json"
  ch_tool_calls :: "OpenAIToolCall list option"
  ch_finish_reason :: "string option"

definition convertToolToOpenAI :: "LLMTool \<Rightarrow> OpenAITool" where
  "convertToolToOpenAI t =
     \<lparr>ot_name = tool_name t, ot_description = description t, ot_parameters = input_schema t\<rparr>"

definition openaiMessage :: "LLMMessage \<Rightarrow> OpenAIMessage" where
  "openaiMessage msg =
     (if truthy_opt (tool_call_id msg)
      then \<lparr>om_role = role msg, om_content = content msg,
            om_tool_call_id = tool_call_id msg, om_name = name msg\<rparr>
      else \<lparr>om_role = role msg, om_content = content msg,
            om_tool_call_id = None, om_name = None\<rparr>)"

text \<open>
  The loop over \<open>message.tool_calls\<close>; \<open>JSON.parse\<close> is the parameter \<open>parse\<close> and its
  \<open>SyntaxError\<close> leaves the loop at the first unparsable argument string.
\<close>

fun convertToolCalls ::
  "(string \<Rightarrow> error + json) \<Rightarrow> OpenAIToolCall list \<Rightarrow> error + LLMToolCall list" where
  "convertToolCalls parse [] = Inr []"
| "convertToolCalls parse (tc # tcs) =
     (case parse (otc_function_arguments tc) of
        Inl e \<Rightarrow> Inl e
      | Inr inp \<Rightarrow>
          (case convertToolCalls parse tcs of
             Inl e \<Rightarrow> Inl e
           | Inr rest \<Rightarrow>
               Inr (\<lparr>tc_id = otc_id tc, tc_name = otc_function_name tc, tc_input = inp\<rparr> # rest)))"

text \<open>
  \<open>callManus\<close>. \<open>invokeLLM\<close>, \<open>JSON.stringify\<close> and \<open>JSON.parse\<close> are parameters; the
  result of \<open>invokeLLM\<close> is its list of choices.
\<close>

definition callManus ::
  "(InvokeParams \<Rightarrow> error + OpenAIChoice list) \<Rightarrow> (json \<Rightarrow> string) \<Rightarrow>
   (string \<Rightarrow> error + json) \<Rightarrow>
   LLMMessage list \<Rightarrow> LLMTool list \<Rightarrow> LLMConfig \<Rightarrow> error + LLMResponse" where
  "callManus invokeLLM stringify parse messages tools config =
     (case invokeLLM \<lparr>ip_messages = map openaiMessage messages,
                      ip_tools = map convertToolToOpenAI tools,
                      ip_toolChoice = ''auto'',
                      ip_maxTokens = 4096\<rparr> of
        Inl e \<Rightarrow> Inl e
      | Inr [] \<Rightarrow> Inl (Error ''No response from LLM'')
      | Inr (choice # _) \<Rightarrow>
          (let c = (case ch_content choice of Inl s \<Rightarrow> s | Inr v \<Rightarrow> stringify v) in
           case convertToolCalls parse (case ch_tool_calls choice of None \<Rightarrow> [] | Some tcs \<Rightarrow> tcs) of
             Inl e \<Rightarrow> Inl e
           | Inr tcs \<Rightarrow>
               Inr \<lparr>r_content = c,
                    toolCalls = (if length tcs > 0 then Some tcs else None),
                    stopReason = or_else (ch_finish_reason choice) ''stop''\<rparr>))"

subsection \<open>Dispatch\<close>

text \<open>
  \<open>callLLM\<close>: the Claude backend is taken only when the provider is \<open>claude\<close> and the
  API key is truthy; every other configuration goes to the Manus backend.
\<close>

definition callLLM ::
  "(string option \<Rightarrow> AnthropicRequest \<Rightarrow> error + AnthropicResponse) \<Rightarrow>
   (InvokeParams \<Rightarrow> error + OpenAIChoice list) \<Rightarrow> (json \<Rightarrow> string) \<Rightarrow>
   (string \<Rightarrow> error + json) \<Rightarrow>
   LLMMessage list \<Rightarrow> LLMTool list \<Rightarrow> LLMConfig \<Rightarrow> error + LLMResponse" where
  "callLLM create invokeLLM stringify parse messages tools config =
     (if provider config = claude \<and> truthy_opt (anthropicApiKey config)
      then callClaude create messages tools config
      else callManus invokeLLM stringify parse messages tools config)"

section \<open>The agent loop (claudeAgent.ts)\<close>

datatype doc_type = original | revised

record Document =
  d_id :: string
  d_name :: string
  d_url :: string
  d_type :: doc_type
  d_pages :: string

text \<open>
  What a tool returns, as far as the loop reads it: \<open>id\<close>, \<open>url\<close> and \<open>filename\<close> (the
  empty string stands for an absent or otherwise falsy field), the optional \<open>files\<close> array
  of \<open>split_pdf\<close>, and the rest of the object, which the loop only passes on.
\<close>

record FileEntry =
  f_id :: string
  f_filename :: string
  f_url :: string
  f_pages :: string

record ToolOutput =
  to_id :: string
  to_url :: string
  to_filename :: string
  to_files :: "FileEntry list option"
  to_rest :: json

text \<open>
  \<open>operation.result\<close> is either the tool's own result or the object
  \<open>{ success: false, error: errorMessage }\<close> written by the \<open>catch\<close> block.
\<close>

datatype op_result = tool_output ToolOutput | failure string

fun op_success_false :: "op_result \<Rightarrow> bool" where
  "op_success_false (failure e) = True"
| "op_success_false (tool_output r) = False"

record Operation =
  op_tool :: string
  op_input :: json
  op_result :: op_result

text \<open>
  The two objects handed to \<open>JSON.stringify\<close> for a tool message: the tool's result, or
  \<open>{ error: errorMessage }\<close>. \<open>JSON.stringify\<close> itself is a parameter of the loop.
\<close>

datatype tool_payload = result_payload ToolOutput | error_payload string

text \<open>Log entries, without their timestamps.\<close>

datatype AgentLog =
    log_tool_use string json
  | log_tool_result string ToolOutput
  | log_tool_error string string
  | log_message string
  | log_error string

record AgentState =
  messages :: "LLMMessage list"
  documents :: "Document list"
  operations :: "Operation list"
  logs :: "AgentLog list"
  continueLoop :: bool
  finalResponse :: string
  iteration :: nat
  llm_calls :: nat

type_synonym tool_function = "json \<Rightarrow> Document list \<Rightarrow> error + ToolOutput"

definition maxIterations :: nat where
  "maxIterations = 20"

definition newDocument :: "string \<Rightarrow> ToolOutput \<Rightarrow> Document" where
  "newDocument toolName toolResult =
     \<lparr>d_id = to_id toolResult,
      d_name = (if truthy (to_filename toolResult) then to_filename toolResult
                else toolName @ ''_result.pdf''),
      d_url = to_url toolResult,
      d_type = revised,
      d_pages = ''unknown''\<rparr>"

definition fileDocument :: "string \<Rightarrow> FileEntry \<Rightarrow> Document" where
  "fileDocument toolName file =
     \<lparr>d_id = f_id file,
      d_name = (if truthy (f_filename file) then f_filename file else toolName @ ''_result.pdf''),
      d_url = f_url file,
      d_type = revised,
      d_pages = (if truthy (f_pages file) then f_pages file else ''unknown'')\<rparr>"

text \<open>The documents a successful tool result adds to \<open>context.documents\<close>.\<close>

definition producedDocuments :: "string \<Rightarrow> ToolOutput \<Rightarrow> Document list" where
  "producedDocuments toolName toolResult =
     (if truthy (to_id toolResult) \<and> truthy (to_url toolResult)
      then [newDocument toolName toolResult] else [])
     @ (case to_files toolResult of
          None \<Rightarrow> []
        | Some files \<Rightarrow>
            map (fileDocument toolName)
              (filter (\<lambda>file. truthy (f_id file) \<and> truthy (f_url file)) files))"

definition toolMessage :: "string \<Rightarrow> LLMToolCall \<Rightarrow> LLMMessage" where
  "toolMessage body toolCall =
     \<lparr>role = tool, content = body, tool_call_id = Some (tc_id toolCall),
      name = Some (tc_name toolCall), tool_calls = None\<rparr>"

text \<open>
  Running a tool inside the inner \<open>try\<close>: the lookup \<open>pdfMcpTools[toolName]\<close> throws when
  the name is unknown, and the tool itself may throw.
\<close>

definition runTool ::
  "(string \<Rightarrow> tool_function option) \<Rightarrow> LLMToolCall \<Rightarrow> Document list \<Rightarrow> error + ToolOutput" where
  "runTool pdfMcpTools toolCall docs =
     (case pdfMcpTools (tc_name toolCall) of
        None \<Rightarrow> Inl (Error (''Tool '' @ tc_name toolCall @ '' not found''))
      | Some toolFunction \<Rightarrow> toolFunction (tc_input toolCall) docs)"

text \<open>\<open>error.message || 'Tool execution failed'\<close> in the inner \<open>catch\<close>.\<close>

definition toolErrorMessage :: "error \<Rightarrow> string" where
  "toolErrorMessage e = (if truthy (message e) then message e else ''Tool execution failed'')"

text \<open>The body of the loop over \<open>result.toolCalls\<close>: one tool call, with its \<open>try/catch\<close>.\<close>

definition executeToolCall ::
  "(string \<Rightarrow> tool_function option) \<Rightarrow> (tool_payload \<Rightarrow> string) \<Rightarrow>
   AgentState \<Rightarrow> LLMToolCall \<Rightarrow> AgentState" where
  "executeToolCall pdfMcpTools stringify s toolCall =
     (let toolName = tc_name toolCall;
          toolInput = tc_input toolCall;
          s1 = s\<lparr>logs := logs s @ [log_tool_use toolName toolInput]\<rparr>
      in case runTool pdfMcpTools toolCall (documents s1) of
           Inr toolResult \<Rightarrow>
             s1\<lparr>documents := documents s1 @ producedDocuments toolName toolResult,
                logs := logs s1 @ [log_tool_result toolName toolResult],
                messages := messages s1 @ [toolMessage (stringify (result_payload toolResult)) toolCall],
                operations := operations s1 @
                  [\<lparr>op_tool = toolName, op_input = toolInput, op_result = tool_output toolResult\<rparr>]\<rparr>
         | Inl e \<Rightarrow>
             (let errorMessage = toolErrorMessage e
              in s1\<lparr>logs := logs s1 @ [log_tool_error toolName errorMessage],
                    messages := messages s1 @ [toolMessage (stringify (error_payload errorMessage)) toolCall],
                    operations := operations s1 @
                      [\<lparr>op_tool = toolName, op_input = toolInput, op_result = failure errorMessage\<rparr>]\<rparr>))"

text \<open>
  One pass through the body of the \<open>while\<close> loop, after \<open>iteration++\<close>. The provider call
  \<open>callLLM(messages, PDF_TOOLS, llmConfig)\<close> is the parameter \<open>llm\<close>, applied to the number
  of calls made before and to the current message list, so that it can be any scripted
  stub; \<open>llm_calls\<close> counts the calls.
\<close>

definition agentRound ::
  "(nat \<Rightarrow> LLMMessage list \<Rightarrow> error + LLMResponse) \<Rightarrow>
   (string \<Rightarrow> tool_function option) \<Rightarrow> (tool_payload \<Rightarrow> string) \<Rightarrow>
   AgentState \<Rightarrow> AgentState" where
  "agentRound llm pdfMcpTools stringify s =
     (let s0 = s\<lparr>llm_calls := llm_calls s + 1\<rparr> in
      case llm (llm_calls s) (messages s) of
        Inl e \<Rightarrow>
          s0\<lparr>logs := logs s0 @
                 [log_error (if truthy (message e) then message e else ''Agent execution failed'')],
             finalResponse := ''I encountered an error: '' @ message e @ ''. Please try again.'',
             continueLoop := False\<rparr>
      | Inr result \<Rightarrow>
          (case toolCalls result of
             Some (tc # tcs) \<Rightarrow>
               foldl (executeToolCall pdfMcpTools stringify)
                 (s0\<lparr>messages := messages s0 @
                       [\<lparr>role = assistant, content = r_content result, tool_call_id = None,
                         name = None, tool_calls = Some (tc # tcs)\<rparr>]\<rparr>)
                 (tc # tcs)
           | _ \<Rightarrow>
               s0\<lparr>messages := messages s0 @
                      [\<lparr>role = assistant, content = r_content result, tool_call_id = None,
                        name = None, tool_calls = None\<rparr>],
                  finalResponse := r_content result,
                  logs := logs s0 @ [log_message (r_content result)],
                  continueLoop := False\<rparr>))"

lemma executeToolCall_control:
  "iteration (executeToolCall pdfMcpTools stringify s toolCall) = iteration s"
  "continueLoop (executeToolCall pdfMcpTools stringify s toolCall) = continueLoop s"
  "finalResponse (executeToolCall pdfMcpTools stringify s toolCall) = finalResponse s"
  "llm_calls (executeToolCall pdfMcpTools stringify s toolCall) = llm_calls s"
  by (simp_all add: executeToolCall_def Let_def split: sum.splits)

lemma foldl_executeToolCall_control:
  "iteration (foldl (executeToolCall pdfMcpTools stringify) s tcs) = iteration s"
  "continueLoop (foldl (executeToolCall pdfMcpTools stringify) s tcs) = continueLoop s"
  "finalResponse (foldl (executeToolCall pdfMcpTools stringify) s tcs) = finalResponse s"
  "llm_calls (foldl (executeToolCall pdfMcpTools stringify) s tcs) = llm_calls s"
  by (induction tcs arbitrary: s) (simp_all add: executeToolCall_control)

lemma agentRound_iteration:
  "iteration (agentRound llm pdfMcpTools stringify s) = iteration s"
  by (simp add: agentRound_def Let_def foldl_executeToolCall_control executeToolCall_control
      split: sum.splits option.splits list.splits)

text \<open>
  The \<open>while (continueLoop && iteration < maxIterations)\<close> loop. It terminates because
  every pass raises \<open>iteration\<close> by one and nothing else writes it.
\<close>

function agentLoop ::
  "(nat \<Rightarrow> LLMMessage list \<Rightarrow> error + LLMResponse) \<Rightarrow>
   (string \<Rightarrow> tool_function option) \<Rightarrow> (tool_payload \<Rightarrow> string) \<Rightarrow>
   AgentState \<Rightarrow> AgentState" where
  "agentLoop llm pdfMcpTools stringify s =
     (if continueLoop s \<and> iteration s < maxIterations
      then agentLoop llm pdfMcpTools stringify
             (agentRound llm pdfMcpTools stringify (s\<lparr>iteration := iteration s + 1\<rparr>))
      else s)"
  by pat_completeness auto
termination
  by (relation "measure (\<lambda>(llm, pdfMcpTools, stringify, s). maxIterations - iteration s)")
     (auto simp: agentRound_iteration)

declare agentLoop.simps [simp del]

text \<open>The state after at most \<open>k\<close> passes of the loop: the loop, cut off after \<open>k\<close> rounds.\<close>

fun afterRounds ::
  "(nat \<Rightarrow> LLMMessage list \<Rightarrow> error + LLMResponse) \<Rightarrow>
   (string \<Rightarrow> tool_function option) \<Rightarrow> (tool_payload \<Rightarrow> string) \<Rightarrow>
   nat \<Rightarrow> AgentState \<Rightarrow> AgentState" where
  "afterRounds llm pdfMcpTools stringify 0 s = s"
| "afterRounds llm pdfMcpTools stringify (Suc k) s =
     (if continueLoop s \<and> iteration s < maxIterations
      then afterRounds llm pdfMcpTools stringify k
             (agentRound llm pdfMcpTools stringify (s\<lparr>iteration := iteration s + 1\<rparr>))
      else s)"

subsection \<open>The message list of a turn\<close>

definition nl :: string where
  "nl = [CHR 0x0A]"

definition documentLine :: "Document \<Rightarrow> string" where
  "documentLine doc =
     ''- '' @ d_id doc @ '': '' @ d_name doc @ '' (''
       @ (if d_type doc = revised then ''REVISED'' else ''original'') @ '', ''
       @ (if truthy (d_pages doc) then d_pages doc else ''unknown'') @ '' pages)''"

definition systemMessage :: "Document list \<Rightarrow> string" where
  "systemMessage docs =
     ''You are a PDF operations assistant. You can help users manipulate PDF documents using the available tools.''
     @ nl @ nl
     @ ''Available documents:'' @ nl
     @ join nl (map documentLine docs) @ nl @ nl
     @ ''When the user asks to perform an operation:'' @ nl
     @ ''1. Identify which tool to use'' @ nl
     @ ''2. Extract the necessary parameters from the user'' @ [CHR 0x27] @ ''s request'' @ nl
     @ ''3. Call the appropriate tool'' @ nl
     @ ''4. Explain what you did'' @ nl @ nl
     @ ''IMPORTANT - Cleanup: Before finishing a task, use the delete_documents tool to remove any intermediate revised documents that are no longer needed. Keep only the final output documents the user requested. For example, if you split a PDF and then combined parts of it, delete the split files after combining since only the combined result is needed.''
     @ nl @ nl
     @ ''If no documents are uploaded, politely ask the user to upload a PDF first.''"

record HistoryMessage =
  h_role :: string
  h_content :: string

definition plainMessage :: "role \<Rightarrow> string \<Rightarrow> LLMMessage" where
  "plainMessage r c =
     \<lparr>role = r, content = c, tool_call_id = None, name = None, tool_calls = None\<rparr>"

definition historyMessages :: "HistoryMessage list option \<Rightarrow> LLMMessage list" where
  "historyMessages conversationHistory =
     (case conversationHistory of
        None \<Rightarrow> []
      | Some h \<Rightarrow>
          map (\<lambda>histMsg. plainMessage (if h_role histMsg = ''user'' then user else assistant)
                                      (h_content histMsg))
              (butlast h))"

definition initialMessages ::
  "string \<Rightarrow> Document list \<Rightarrow> HistoryMessage list option \<Rightarrow> LLMMessage list" where
  "initialMessages userMessage docs conversationHistory =
     plainMessage system (systemMessage docs)
       # historyMessages conversationHistory @ [plainMessage user userMessage]"

definition initialState ::
  "string \<Rightarrow> Document list \<Rightarrow> HistoryMessage list option \<Rightarrow> AgentState" where
  "initialState userMessage docs conversationHistory =
     \<lparr>messages = initialMessages userMessage docs conversationHistory,
      documents = docs, operations = [], logs = [],
      continueLoop = True, finalResponse = [], iteration = 0, llm_calls = 0\<rparr>"

subsection \<open>runPdfAgent\<close>

record AgentResult =
  response :: string
  ar_operations :: "Operation list"

definition limitMessage :: string where
  "limitMessage = ''I reached the maximum number of operations. Please start a new conversation.''"

text \<open>The code behind the loop: the limit check and the returned object.\<close>

definition finish :: "AgentState \<Rightarrow> AgentResult" where
  "finish s =
     (let finalResponse' = (if iteration s \<ge> maxIterations then limitMessage else finalResponse s)
      in \<lparr>response = (if truthy finalResponse' then finalResponse' else ''Operation completed.''),
          ar_operations = operations s\<rparr>)"

text \<open>The state in which the loop ends, and the value \<open>runPdfAgent\<close> returns.\<close>

definition agentRun ::
  "(nat \<Rightarrow> LLMMessage list \<Rightarrow> error + LLMResponse) \<Rightarrow>
   (string \<Rightarrow> tool_function option) \<Rightarrow> (tool_payload \<Rightarrow> string) \<Rightarrow>
   string \<Rightarrow> Document list \<Rightarrow> HistoryMessage list option \<Rightarrow> AgentState" where
  "agentRun llm pdfMcpTools stringify userMessage docs conversationHistory =
     agentLoop llm pdfMcpTools stringify (initialState userMessage docs conversationHistory)"

definition runPdfAgent ::
  "(nat \<Rightarrow> LLMMessage list \<Rightarrow> error + LLMResponse) \<Rightarrow>
   (string \<Rightarrow> tool_function option) \<Rightarrow> (tool_payload \<Rightarrow> string) \<Rightarrow>
   string \<Rightarrow> Document list \<Rightarrow> HistoryMessage list option \<Rightarrow> AgentResult" where
  "runPdfAgent llm pdfMcpTools stringify userMessage docs conversationHistory =
     finish (agentRun llm pdfMcpTools stringify userMessage docs conversationHistory)"

section \<open>Properties of the LLM service\<close>

subsection \<open>Stubs for concrete runs\<close>

definition create_stub :: "string option \<Rightarrow> AnthropicRequest \<Rightarrow> error + AnthropicResponse" where
  "create_stub key request = Inl (Error ''authentication_error'')"

definition invokeLLM_stub :: "InvokeParams \<Rightarrow> error + OpenAIChoice list" where
  "invokeLLM_stub params =
     Inr [\<lparr>ch_content = Inl ''hello'', ch_tool_calls = None, ch_finish_reason = Some ''stop''\<rparr>]"

definition stringify_stub :: "json \<Rightarrow> string" where
  "stringify_stub v = ''null''"

definition parse_stub :: "string \<Rightarrow> error + json" where
  "parse_stub s = Inr JNull"

definition call1 :: LLMToolCall where
  "call1 = \<lparr>tc_id = ''call_1'', tc_name = ''split_pdf'',
             tc_input = JObj [(''documentId'', JStr ''d1'')]\<rparr>"

definition call2 :: LLMToolCall where
  "call2 = \<lparr>tc_id = ''call_2'', tc_name = ''extract_text'',
             tc_input = JObj [(''pages'', JArr [JNum 1, JNum 2])]\<rparr>"

definition assistant_two_calls :: LLMMessage where
  "assistant_two_calls =
     \<lparr>role = assistant, content = [], tool_call_id = None, name = None,
      tool_calls = Some [call1, call2]\<rparr>"

definition answer1 :: LLMMessage where
  "answer1 = toolMessage ''first'' call1"

definition answer2 :: LLMMessage where
  "answer2 = toolMessage ''second'' call2"

definition config_claude :: LLMConfig where
  "config_claude = \<lparr>provider = claude, anthropicApiKey = Some ''key'', model = None\<rparr>"

subsection \<open>Dispatch without a credential\<close>

text \<open>
  C2, as stated, fails: with the provider set to \<open>claude\<close> and no API key, \<open>callLLM\<close>
  does not fail. It hands the call to the Manus backend and returns that backend's answer.
\<close>

theorem callLLM_no_key_falls_back:
  "callLLM create_stub invokeLLM_stub stringify_stub parse_stub [] []
     \<lparr>provider = claude, anthropicApiKey = None, model = None\<rparr>
   = Inr \<lparr>r_content = ''hello'', toolCalls = None, stopReason = ''stop''\<rparr>"
  by (simp add: callLLM_def callManus_def invokeLLM_stub_def)

text \<open>
  C2 (amended): \<open>callLLM\<close> raises no error of its own for a missing credential. It is
  the call to the Claude backend exactly when the provider is \<open>claude\<close> and the API key
  is present and non-empty. In every other configuration, in particular with the provider
  \<open>claude\<close> and an absent or empty key, it is the call to the Manus backend: its result is
  that backend's result (an error only when that backend raises one), whatever the
  Anthropic client would have done.
\<close>

theorem callLLM_dispatch:
  "(provider config = claude \<and> truthy_opt (anthropicApiKey config) \<longrightarrow>
      callLLM create invokeLLM stringify parse msgs tools config
        = callClaude create msgs tools config)
   \<and> (\<not> (provider config = claude \<and> truthy_opt (anthropicApiKey config)) \<longrightarrow>
      callLLM create invokeLLM stringify parse msgs tools config
        = callManus invokeLLM stringify parse msgs tools config)"
  by (simp add: callLLM_def)

theorem callLLM_dispatch_witness:
  "callLLM create_stub invokeLLM_stub stringify_stub parse_stub [] []
     \<lparr>provider = claude, anthropicApiKey = Some [], model = None\<rparr>
   = callManus invokeLLM_stub stringify_stub parse_stub [] []
     \<lparr>provider = claude, anthropicApiKey = Some [], model = None\<rparr>
   \<and> callLLM create_stub invokeLLM_stub stringify_stub parse_stub [] []
     \<lparr>provider = manus, anthropicApiKey = Some ''key'', model = None\<rparr>
   = callManus invokeLLM_stub stringify_stub parse_stub [] []
     \<lparr>provider = manus, anthropicApiKey = Some ''key'', model = None\<rparr>
   \<and> callLLM create_stub invokeLLM_stub stringify_stub parse_stub [] [] config_claude
   = callClaude create_stub [] [] config_claude"
  using
    callLLM_dispatch
      [of "\<lparr>provider = claude, anthropicApiKey = Some [], model = None\<rparr>"
          create_stub invokeLLM_stub stringify_stub parse_stub "[]" "[]"]
    callLLM_dispatch
      [of "\<lparr>provider = manus, anthropicApiKey = Some ''key'', model = None\<rparr>"
          create_stub invokeLLM_stub stringify_stub parse_stub "[]" "[]"]
    callLLM_dispatch
      [of config_claude create_stub invokeLLM_stub stringify_stub parse_stub "[]" "[]"]
  by (simp add: truthy_def config_claude_def)

subsection \<open>Coalescing of tool results\<close>

lemma anthropicMessages_tool_run:
  assumes "ts \<noteq> []" and "\<forall>t\<in>set ts. role t = tool"
    and "post = [] \<or> role (hd post) \<noteq> tool"
  shows "anthropicMessages (ts @ post) =
     \<lparr>mp_role = wire_user, mp_content = blocks (map toolResultBlock ts)\<rparr> # anthropicMessages post"
proof -
  obtain t ts' where ts: "ts = t # ts'" using assms(1) by (cases ts) auto
  have all: "\<forall>x\<in>set ts'. is_tool x" using assms(2) ts by (simp add: is_tool_def)
  have np: "post = [] \<or> \<not> is_tool (hd post)" using assms(3) by (simp add: is_tool_def)
  have tw: "takeWhile is_tool (ts' @ post) = ts'"
    using all np by (cases post) simp_all
  have dw: "dropWhile is_tool (ts' @ post) = post"
    using all np by (cases post) simp_all
  show ?thesis using assms(2) ts tw dw by simp
qed

lemma anthropicMessages_append:
  assumes "rest = [] \<or> role (hd rest) \<noteq> tool"
  shows "anthropicMessages (pre @ rest) = anthropicMessages pre @ anthropicMessages rest"
  using assms
proof (induction pre rule: anthropicMessages.induct)
  case 1
  then show ?case by simp
next
  case (2 msg pre')
  show ?case
  proof (cases "role msg = tool")
    case False
    then show ?thesis using 2 by simp
  next
    case True
    have np: "rest = [] \<or> \<not> is_tool (hd rest)" using 2(4) by (simp add: is_tool_def)
    show ?thesis
    proof (cases "\<forall>x\<in>set pre'. is_tool x")
      case all: True
      have A: "takeWhile is_tool (pre' @ rest) = pre'" "dropWhile is_tool (pre' @ rest) = rest"
        using all np by (cases rest; simp)+
      have B: "takeWhile is_tool pre' = pre'" "dropWhile is_tool pre' = []"
        using all by simp_all
      show ?thesis using True by (simp add: A B)
    next
      case False
      then obtain x where x: "x \<in> set pre'" "\<not> is_tool x" by blast
      have A: "takeWhile is_tool (pre' @ rest) = takeWhile is_tool pre'"
        using x by (rule takeWhile_append1)
      have B: "dropWhile is_tool (pre' @ rest) = dropWhile is_tool pre' @ rest"
        using x by (rule dropWhile_append1)
      have C: "anthropicMessages (dropWhile is_tool pre' @ rest)
          = anthropicMessages (dropWhile is_tool pre') @ anthropicMessages rest"
        using 2(1)[OF True 2(4)] .
      show ?thesis using True by (simp add: A B C)
    qed
  qed
qed

text \<open>
  C7: in a message list \<open>pre @ [a] @ ts @ post\<close>, where \<open>a\<close> is an assistant message, \<open>ts\<close>
  is the non-empty run of tool messages that answers it and the run ends there (the next
  message that is not a system message, if any, is not a tool message), the messages sent
  to Claude are those of \<open>pre\<close>, the assistant message, exactly one user message holding
  one \<open>tool_result\<close> block per message of \<open>ts\<close> in the order of \<open>ts\<close>, and those of
  \<open>post\<close>.
\<close>

theorem tool_results_coalesced:
  assumes a: "role a = assistant"
    and ts: "ts \<noteq> []" "\<forall>t\<in>set ts. role t = tool"
    and post: "filter (\<lambda>m. role m \<noteq> system) post = []
               \<or> role (hd (filter (\<lambda>m. role m \<noteq> system) post)) \<noteq> tool"
  shows "rq_messages (buildRequest (pre @ [a] @ ts @ post) tools config) =
           anthropicMessages (filter (\<lambda>m. role m \<noteq> system) pre)
           @ [assistantParam a,
              \<lparr>mp_role = wire_user, mp_content = blocks (map toolResultBlock ts)\<rparr>]
           @ anthropicMessages (filter (\<lambda>m. role m \<noteq> system) post)"
proof -
  let ?ns = "\<lambda>m. role m \<noteq> system"
  have fts: "filter ?ns ts = ts" using ts(2) by (simp add: filter_id_conv)
  have conv: "filter ?ns (pre @ [a] @ ts @ post) = filter ?ns pre @ (a # (ts @ filter ?ns post))"
    using a fts by simp
  have rq: "rq_messages (buildRequest M tools config) = anthropicMessages (filter ?ns M)" for M
    by (simp add: buildRequest_def)
  have "anthropicMessages (filter ?ns pre @ (a # (ts @ filter ?ns post)))
      = anthropicMessages (filter ?ns pre) @ anthropicMessages (a # (ts @ filter ?ns post))"
    using a by (intro anthropicMessages_append) simp
  also have "anthropicMessages (a # (ts @ filter ?ns post))
      = assistantParam a # anthropicMessages (ts @ filter ?ns post)"
    using a by simp
  also have "anthropicMessages (ts @ filter ?ns post)
      = \<lparr>mp_role = wire_user, mp_content = blocks (map toolResultBlock ts)\<rparr>
          # anthropicMessages (filter ?ns post)"
    using ts post by (rule anthropicMessages_tool_run)
  finally have X: "anthropicMessages (filter ?ns pre @ (a # (ts @ filter ?ns post)))
      = anthropicMessages (filter ?ns pre)
        @ assistantParam a # \<lparr>mp_role = wire_user, mp_content = blocks (map toolResultBlock ts)\<rparr>
          # anthropicMessages (filter ?ns post)" .
  have "rq_messages (buildRequest (pre @ [a] @ ts @ post) tools config)
      = anthropicMessages (filter ?ns pre @ (a # (ts @ filter ?ns post)))"
    by (simp only: rq conv)
  then show ?thesis using X by simp
qed

theorem tool_results_coalesced_witness:
  "rq_messages (buildRequest
      ([plainMessage system ''s'', plainMessage user ''go''] @ [assistant_two_calls]
        @ [answer1, answer2] @ [plainMessage system ''note''])
      [] config_claude)
   = [\<lparr>mp_role = wire_user, mp_content = plain ''go''\<rparr>,
      \<lparr>mp_role = wire_assistant,
       mp_content = blocks [toolUseBlock call1, toolUseBlock call2]\<rparr>,
      \<lparr>mp_role = wire_user,
       mp_content = blocks [tool_result ''call_1'' ''first'', tool_result ''call_2'' ''second'']\<rparr>]"
  using tool_results_coalesced
    [of assistant_two_calls "[answer1, answer2]" "[plainMessage system ''note'']"
        "[plainMessage system ''s'', plainMessage user ''go'']" "[]" config_claude]
  by (simp add: assistant_two_calls_def answer1_def answer2_def toolMessage_def plainMessage_def
      assistantParam_def contentBlocks_def toolResultBlock_def truthy_def call1_def call2_def)

subsection \<open>Round trip of tool calls through Protocol A\<close>

lemma extractBlocks_toolUse:
  "extractBlocks (map toolUseBlock tcs) txt acc = (txt, acc @ tcs)"
  by (induction tcs arbitrary: acc) (simp_all add: toolUseBlock_def)

lemma extractBlocks_contentBlocks:
  "extractBlocks (contentBlocks txt tcs) [] [] = (txt, tcs)"
  by (simp add: contentBlocks_def extractBlocks_toolUse truthy_def)

text \<open>
  C8: an assistant message that carries a non-empty list of tool calls is sent as one
  assistant message of content blocks, and reading those blocks back as a reply yields
  the same list of tool calls (same number, ids, names and input values, in the same
  order) and the same text.
\<close>

theorem tool_calls_roundtrip:
  assumes "role msg = assistant" and "tool_calls msg = Some tcs" and "tcs \<noteq> []"
  shows "anthropicMessages [msg]
           = [\<lparr>mp_role = wire_assistant, mp_content = blocks (contentBlocks (content msg) tcs)\<rparr>]
         \<and> toolCalls (parseResponse
              \<lparr>rs_content = contentBlocks (content msg) tcs, rs_stop_reason = sr\<rparr>) = Some tcs
         \<and> r_content (parseResponse
              \<lparr>rs_content = contentBlocks (content msg) tcs, rs_stop_reason = sr\<rparr>) = content msg"
  using assms by (simp add: assistantParam_def parseResponse_def extractBlocks_contentBlocks)

theorem tool_calls_roundtrip_witness:
  "anthropicMessages [assistant_two_calls]
     = [\<lparr>mp_role = wire_assistant, mp_content = blocks (contentBlocks [] [call1, call2])\<rparr>]
   \<and> toolCalls (parseResponse
        \<lparr>rs_content = contentBlocks [] [call1, call2], rs_stop_reason = None\<rparr>)
       = Some [call1, call2]
   \<and> r_content (parseResponse
        \<lparr>rs_content = contentBlocks [] [call1, call2], rs_stop_reason = None\<rparr>) = []"
  using tool_calls_roundtrip [of assistant_two_calls "[call1, call2]" None]
  by (simp add: assistant_two_calls_def)

section \<open>Properties of the agent loop\<close>

text \<open>A reply on which the test \<open>result.toolCalls && result.toolCalls.length > 0\<close> fails.\<close>

definition noToolCalls :: "LLMResponse \<Rightarrow> bool" where
  "noToolCalls result = (toolCalls result = None \<or> toolCalls result = Some [])"

subsection \<open>Stubs for concrete runs\<close>

definition no_tools :: "string \<Rightarrow> tool_function option" where
  "no_tools toolName = None"

definition payload_stub :: "tool_payload \<Rightarrow> string" where
  "payload_stub p = (case p of result_payload r \<Rightarrow> ''{}'' | error_payload e \<Rightarrow> e)"

definition llm_silent :: "nat \<Rightarrow> LLMMessage list \<Rightarrow> error + LLMResponse" where
  "llm_silent n ms = Inr \<lparr>r_content = [], toolCalls = None, stopReason = ''end_turn''\<rparr>"

definition llm_done :: "nat \<Rightarrow> LLMMessage list \<Rightarrow> error + LLMResponse" where
  "llm_done n ms = Inr \<lparr>r_content = ''Done.'', toolCalls = None, stopReason = ''end_turn''\<rparr>"

subsection \<open>The loop and its cut-off\<close>

lemma agentLoop_afterRounds:
  "agentLoop llm pdfMcpTools stringify (afterRounds llm pdfMcpTools stringify k s)
   = agentLoop llm pdfMcpTools stringify s"
proof (induction k arbitrary: s)
  case 0
  show ?case by simp
next
  case (Suc k)
  show ?case
  proof (cases "continueLoop s \<and> iteration s < maxIterations")
    case True
    let ?s' = "agentRound llm pdfMcpTools stringify (s\<lparr>iteration := iteration s + 1\<rparr>)"
    have a: "afterRounds llm pdfMcpTools stringify (Suc k) s
             = afterRounds llm pdfMcpTools stringify k ?s'"
      using True by simp
    have b: "agentLoop llm pdfMcpTools stringify s = agentLoop llm pdfMcpTools stringify ?s'"
      using True by (subst agentLoop.simps) simp
    show ?thesis unfolding a b by (rule Suc)
  next
    case False
    then have "afterRounds llm pdfMcpTools stringify (Suc k) s = s" by auto
    then show ?thesis by simp
  qed
qed

lemma agentLoop_stop: "\<not> continueLoop s \<Longrightarrow> agentLoop llm pdfMcpTools stringify s = s"
  by (simp add: agentLoop.simps)

subsection \<open>A reply without tool calls\<close>

lemma agentRound_final:
  assumes "llm (llm_calls s) (messages s) = Inr result" and "noToolCalls result"
  shows "agentRound llm pdfMcpTools stringify s =
     s\<lparr>llm_calls := llm_calls s + 1,
       messages := messages s @ [plainMessage assistant (r_content result)],
       finalResponse := r_content result,
       logs := logs s @ [log_message (r_content result)],
       continueLoop := False\<rparr>"
  using assms by (auto simp: agentRound_def noToolCalls_def plainMessage_def)

lemma agentLoop_final:
  assumes "continueLoop s" and "iteration s < maxIterations"
    and "llm (llm_calls s) (messages s) = Inr result" and "noToolCalls result"
  shows "agentLoop llm pdfMcpTools stringify s =
     s\<lparr>iteration := iteration s + 1,
       llm_calls := llm_calls s + 1,
       messages := messages s @ [plainMessage assistant (r_content result)],
       finalResponse := r_content result,
       logs := logs s @ [log_message (r_content result)],
       continueLoop := False\<rparr>"
proof -
  let ?s1 = "s\<lparr>iteration := iteration s + 1\<rparr>"
  have r: "agentRound llm pdfMcpTools stringify ?s1 =
     ?s1\<lparr>llm_calls := llm_calls ?s1 + 1,
       messages := messages ?s1 @ [plainMessage assistant (r_content result)],
       finalResponse := r_content result,
       logs := logs ?s1 @ [log_message (r_content result)],
       continueLoop := False\<rparr>"
    by (rule agentRound_final) (use assms in simp_all)
  have "agentLoop llm pdfMcpTools stringify s
        = agentLoop llm pdfMcpTools stringify (agentRound llm pdfMcpTools stringify ?s1)"
    using assms(1,2) by (subst agentLoop.simps) simp
  also have "\<dots> = agentRound llm pdfMcpTools stringify ?s1"
    by (rule agentLoop_stop) (simp only: r, simp)
  finally show ?thesis by (simp only: r, simp)
qed

lemma agentRun_final:
  assumes "s = afterRounds llm pdfMcpTools stringify k (initialState userMessage docs history)"
    and "continueLoop s" and "iteration s < maxIterations"
    and "llm (llm_calls s) (messages s) = Inr result" and "noToolCalls result"
  shows "agentRun llm pdfMcpTools stringify userMessage docs history =
     s\<lparr>iteration := iteration s + 1,
       llm_calls := llm_calls s + 1,
       messages := messages s @ [plainMessage assistant (r_content result)],
       finalResponse := r_content result,
       logs := logs s @ [log_message (r_content result)],
       continueLoop := False\<rparr>"
proof -
  have "agentRun llm pdfMcpTools stringify userMessage docs history
        = agentLoop llm pdfMcpTools stringify s"
    by (simp add: agentRun_def assms(1) agentLoop_afterRounds)
  also have "\<dots> = s\<lparr>iteration := iteration s + 1,
       llm_calls := llm_calls s + 1,
       messages := messages s @ [plainMessage assistant (r_content result)],
       finalResponse := r_content result,
       logs := logs s @ [log_message (r_content result)],
       continueLoop := False\<rparr>"
    using assms(2-5) by (rule agentLoop_final)
  finally show ?thesis .
qed

text \<open>
  C4, as stated, fails: a first reply without tool calls and with empty text is not
  returned as it is; the turn's response is the fallback text.
\<close>

theorem empty_final_answer_replaced:
  "response (runPdfAgent llm_silent no_tools payload_stub ''hello'' [] None)
   = ''Operation completed.''"
proof -
  let ?s = "afterRounds llm_silent no_tools payload_stub 0 (initialState ''hello'' [] None)"
  have "agentRun llm_silent no_tools payload_stub ''hello'' [] None =
     ?s\<lparr>iteration := iteration ?s + 1,
       llm_calls := llm_calls ?s + 1,
       messages := messages ?s @ [plainMessage assistant []],
       finalResponse := [],
       logs := logs ?s @ [log_message []],
       continueLoop := False\<rparr>"
    using agentRun_final [of ?s llm_silent no_tools payload_stub 0 "''hello''" "[]" None
        "\<lparr>r_content = [], toolCalls = None, stopReason = ''end_turn''\<rparr>"]
    by (simp add: initialState_def maxIterations_def llm_silent_def noToolCalls_def)
  then show ?thesis
    by (simp add: runPdfAgent_def finish_def initialState_def maxIterations_def truthy_def)
qed

text \<open>
  C4 (amended): let \<open>s\<close> be the state in which the loop, still running, starts a round
  before the twentieth, and let the provider's reply in that round carry no tool calls.
  Then the turn ends with that reply: its text is appended to the messages as a plain
  assistant message, and the response is that text when it is non-empty and
  \<open>Operation completed.\<close> when it is empty.
\<close>

theorem final_answer_returned:
  assumes "s = afterRounds llm pdfMcpTools stringify k (initialState userMessage docs history)"
    and "continueLoop s" and "iteration s + 1 < maxIterations"
    and "llm (llm_calls s) (messages s) = Inr result" and "noToolCalls result"
  shows "messages (agentRun llm pdfMcpTools stringify userMessage docs history)
           = messages s @ [plainMessage assistant (r_content result)]
       \<and> response (runPdfAgent llm pdfMcpTools stringify userMessage docs history)
           = (if r_content result = [] then ''Operation completed.'' else r_content result)"
proof -
  have "iteration s < maxIterations" using assms(3) by simp
  from agentRun_final [OF assms(1,2) this assms(4,5)] show ?thesis
    using assms(3) by (simp add: runPdfAgent_def finish_def truthy_def)
qed

theorem final_answer_returned_witness:
  "messages (agentRun llm_done no_tools payload_stub ''hello'' [] None)
     = initialMessages ''hello'' [] None @ [plainMessage assistant ''Done.'']
   \<and> response (runPdfAgent llm_done no_tools payload_stub ''hello'' [] None) = ''Done.''"
  using final_answer_returned
    [of "initialState ''hello'' [] None" llm_done no_tools payload_stub 0 "''hello''" "[]" None
        "\<lparr>r_content = ''Done.'', toolCalls = None, stopReason = ''end_turn''\<rparr>"]
  by (simp add: initialState_def maxIterations_def llm_done_def noToolCalls_def)

text \<open>
  In the twentieth round the same reply is not returned: the limit check behind the loop
  looks at \<open>iteration\<close> only and overwrites the final answer with the limit message.
\<close>

lemma final_answer_in_last_round:
  assumes "s = afterRounds llm pdfMcpTools stringify k (initialState userMessage docs history)"
    and "continueLoop s" and "iteration s + 1 = maxIterations"
    and "llm (llm_calls s) (messages s) = Inr result" and "noToolCalls result"
  shows "response (runPdfAgent llm pdfMcpTools stringify userMessage docs history) = limitMessage"
proof -
  have "iteration s < maxIterations" using assms(3) by simp
  from agentRun_final [OF assms(1,2) this assms(4,5)] show ?thesis
    using assms(3) by (simp add: runPdfAgent_def finish_def truthy_def limitMessage_def)
qed

subsection \<open>The iteration ceiling\<close>

text \<open>A provider that answers every call with at least one tool call.\<close>

definition alwaysToolCalls :: "(nat \<Rightarrow> LLMMessage list \<Rightarrow> error + LLMResponse) \<Rightarrow> bool" where
  "alwaysToolCalls llm = (\<forall>n ms. \<exists>result tc tcs. llm n ms = Inr result \<and> toolCalls result = Some (tc # tcs))"

lemma agentRound_tool_calls:
  assumes "llm (llm_calls s) (messages s) = Inr result" and "toolCalls result = Some (tc # tcs)"
  shows "agentRound llm pdfMcpTools stringify s =
           foldl (executeToolCall pdfMcpTools stringify)
             (s\<lparr>llm_calls := llm_calls s + 1,
                messages := messages s @
                  [\<lparr>role = assistant, content = r_content result, tool_call_id = None,
                    name = None, tool_calls = Some (tc # tcs)\<rparr>]\<rparr>)
             (tc # tcs)"
  using assms by (simp add: agentRound_def)

lemma agentRound_tool_calls_control:
  assumes "llm (llm_calls s) (messages s) = Inr result" and "toolCalls result = Some (tc # tcs)"
  shows "continueLoop (agentRound llm pdfMcpTools stringify s) = continueLoop s"
    and "llm_calls (agentRound llm pdfMcpTools stringify s) = llm_calls s + 1"
    and "finalResponse (agentRound llm pdfMcpTools stringify s) = finalResponse s"
  unfolding agentRound_tool_calls [where llm = llm and s = s, OF assms]
  by (simp_all only: foldl_executeToolCall_control) simp_all

lemma agentLoop_runs_to_ceiling:
  "alwaysToolCalls llm \<Longrightarrow> continueLoop s \<Longrightarrow> iteration s \<le> maxIterations \<Longrightarrow>
         iteration (agentLoop llm pdfMcpTools stringify s) = maxIterations
       \<and> llm_calls (agentLoop llm pdfMcpTools stringify s)
           = llm_calls s + (maxIterations - iteration s)
       \<and> continueLoop (agentLoop llm pdfMcpTools stringify s)"
proof (induction llm pdfMcpTools stringify s rule: agentLoop.induct)
  case (1 llm pdfMcpTools stringify s)
  show ?case
  proof (cases "iteration s < maxIterations")
    case False
    then have "agentLoop llm pdfMcpTools stringify s = s"
      by (subst agentLoop.simps) simp
    then show ?thesis using 1(3,4) False by simp
  next
    case True
    let ?s1 = "s\<lparr>iteration := iteration s + 1\<rparr>"
    let ?s' = "agentRound llm pdfMcpTools stringify ?s1"
    obtain result tc tcs where r: "llm (llm_calls ?s1) (messages ?s1) = Inr result"
      "toolCalls result = Some (tc # tcs)"
      using 1(2) unfolding alwaysToolCalls_def by blast
    have c: "continueLoop ?s'" "llm_calls ?s' = llm_calls s + 1" "iteration ?s' = iteration s + 1"
      using agentRound_tool_calls_control [where llm = llm and s = ?s1, OF r, of pdfMcpTools stringify] 1(3)
      by (simp_all add: agentRound_iteration)
    have step: "agentLoop llm pdfMcpTools stringify s = agentLoop llm pdfMcpTools stringify ?s'"
      using True 1(3) by (subst agentLoop.simps) simp
    have "iteration (agentLoop llm pdfMcpTools stringify ?s') = maxIterations
       \<and> llm_calls (agentLoop llm pdfMcpTools stringify ?s')
           = llm_calls ?s' + (maxIterations - iteration ?s')
       \<and> continueLoop (agentLoop llm pdfMcpTools stringify ?s')"
      using 1(1) True 1(2,3) c by simp
    then show ?thesis using c True by (simp add: step)
  qed
qed

text \<open>
  C5: against a provider that always returns at least one tool call and never a final
  answer, \<open>runPdfAgent\<close> ends (the loop is a total function) after exactly 20 rounds and
  20 provider calls, and its response is the limit message.
\<close>

theorem ceiling_reached:
  assumes "alwaysToolCalls llm"
  shows "response (runPdfAgent llm pdfMcpTools stringify userMessage docs history) = limitMessage
       \<and> llm_calls (agentRun llm pdfMcpTools stringify userMessage docs history) = 20
       \<and> iteration (agentRun llm pdfMcpTools stringify userMessage docs history) = 20"
  using assms agentLoop_runs_to_ceiling [of llm "initialState userMessage docs history" pdfMcpTools stringify]
  by (simp add: runPdfAgent_def agentRun_def finish_def initialState_def maxIterations_def
      limitMessage_def truthy_def)

definition llm_loop :: "nat \<Rightarrow> LLMMessage list \<Rightarrow> error + LLMResponse" where
  "llm_loop n ms = Inr \<lparr>r_content = [], toolCalls = Some [call1], stopReason = ''tool_use''\<rparr>"

theorem ceiling_reached_witness:
  "response (runPdfAgent llm_loop no_tools payload_stub ''hello'' [] None) = limitMessage
   \<and> llm_calls (agentRun llm_loop no_tools payload_stub ''hello'' [] None) = 20
   \<and> iteration (agentRun llm_loop no_tools payload_stub ''hello'' [] None) = 20"
  using ceiling_reached [of llm_loop no_tools payload_stub "''hello''" "[]" None]
  by (simp add: alwaysToolCalls_def llm_loop_def)


subsection \<open>A tool call that throws\<close>

lemma executeToolCall_documents:
  "documents (executeToolCall pdfMcpTools stringify s toolCall) =
     (case runTool pdfMcpTools toolCall (documents s) of
        Inr toolResult \<Rightarrow> documents s @ producedDocuments (tc_name toolCall) toolResult
      | Inl e \<Rightarrow> documents s)"
  by (simp add: executeToolCall_def Let_def split: sum.splits)

lemma foldl_executeToolCall_documents:
  "documents s1 = documents s2 \<Longrightarrow>
   documents (foldl (executeToolCall pdfMcpTools stringify) s1 tcs)
   = documents (foldl (executeToolCall pdfMcpTools stringify) s2 tcs)"
proof (induction tcs arbitrary: s1 s2)
  case Nil
  then show ?case by simp
next
  case (Cons tc tcs)
  have "documents (executeToolCall pdfMcpTools stringify s1 tc)
        = documents (executeToolCall pdfMcpTools stringify s2 tc)"
    unfolding executeToolCall_documents Cons.prems ..
  then have "documents (foldl (executeToolCall pdfMcpTools stringify)
                          (executeToolCall pdfMcpTools stringify s1 tc) tcs)
             = documents (foldl (executeToolCall pdfMcpTools stringify)
                          (executeToolCall pdfMcpTools stringify s2 tc) tcs)"
    by (rule Cons.IH)
  then show ?case by simp
qed

lemma executeToolCall_catch:
  assumes "runTool pdfMcpTools toolCall (documents s) = Inl e"
  shows "operations (executeToolCall pdfMcpTools stringify s toolCall)
           = operations s @
               [\<lparr>op_tool = tc_name toolCall, op_input = tc_input toolCall,
                 op_result = failure (toolErrorMessage e)\<rparr>]"
    and "messages (executeToolCall pdfMcpTools stringify s toolCall)
           = messages s @
               [\<lparr>role = tool, content = stringify (error_payload (toolErrorMessage e)),
                 tool_call_id = Some (tc_id toolCall), name = Some (tc_name toolCall),
                 tool_calls = None\<rparr>]"
  using assms by (simp_all add: executeToolCall_def Let_def toolMessage_def)

lemma executeToolCall_grows:
  "set (operations s) \<subseteq> set (operations (executeToolCall pdfMcpTools stringify s toolCall))"
  "set (messages s) \<subseteq> set (messages (executeToolCall pdfMcpTools stringify s toolCall))"
  by (auto simp: executeToolCall_def Let_def split: sum.splits)

lemma foldl_executeToolCall_grows:
  "set (operations s) \<subseteq> set (operations (foldl (executeToolCall pdfMcpTools stringify) s tcs))"
  "set (messages s) \<subseteq> set (messages (foldl (executeToolCall pdfMcpTools stringify) s tcs))"
proof (induction tcs arbitrary: s)
  case Nil
  { case 1 show ?case by simp }
  { case 2 show ?case by simp }
next
  case (Cons x xs)
  { case 1 show ?case
      using executeToolCall_grows(1)[of s pdfMcpTools stringify x]
        Cons(1)[of "executeToolCall pdfMcpTools stringify s x"] by auto }
  { case 2 show ?case
      using executeToolCall_grows(2)[of s pdfMcpTools stringify x]
        Cons(2)[of "executeToolCall pdfMcpTools stringify s x"] by auto }
qed

lemma agentRound_grows:
  "set (operations s) \<subseteq> set (operations (agentRound llm pdfMcpTools stringify s))"
proof (cases "llm (llm_calls s) (messages s)")
  case (Inl e)
  then show ?thesis by (simp add: agentRound_def)
next
  case (Inr result)
  show ?thesis
  proof (cases "noToolCalls result")
    case True
    then show ?thesis using Inr by (auto simp: agentRound_def noToolCalls_def)
  next
    case False
    then obtain tc tcs where tcs: "toolCalls result = Some (tc # tcs)"
      by (cases "toolCalls result"; cases "the (toolCalls result)") (auto simp: noToolCalls_def)
    show ?thesis
      using foldl_executeToolCall_grows(1)
        [of "s\<lparr>llm_calls := llm_calls s + 1,
                messages := messages s @
                  [\<lparr>role = assistant, content = r_content result, tool_call_id = None,
                    name = None, tool_calls = Some (tc # tcs)\<rparr>]\<rparr>" pdfMcpTools stringify "tc # tcs"]
      using Inr tcs by (simp add: agentRound_def)
  qed
qed

lemma agentLoop_grows:
  "set (operations s) \<subseteq> set (operations (agentLoop llm pdfMcpTools stringify s))"
proof (induction llm pdfMcpTools stringify s rule: agentLoop.induct)
  case (1 llm pdfMcpTools stringify s)
  show ?case
  proof (cases "continueLoop s \<and> iteration s < maxIterations")
    case False
    then have "agentLoop llm pdfMcpTools stringify s = s"
      by (subst agentLoop.simps) auto
    then show ?thesis by simp
  next
    case True
    let ?s1 = "s\<lparr>iteration := iteration s + 1\<rparr>"
    let ?s' = "agentRound llm pdfMcpTools stringify ?s1"
    have step: "agentLoop llm pdfMcpTools stringify s = agentLoop llm pdfMcpTools stringify ?s'"
      using True by (subst agentLoop.simps) simp
    have "set (operations s) \<subseteq> set (operations ?s')"
      using agentRound_grows[of ?s1 llm pdfMcpTools stringify] by simp
    moreover have "set (operations ?s') \<subseteq> set (operations (agentLoop llm pdfMcpTools stringify ?s'))"
      using 1 True by simp
    ultimately show ?thesis unfolding step by blast
  qed
qed

lemma afterRounds_Suc:
  "afterRounds llm pdfMcpTools stringify (Suc k) s0 =
     (let s = afterRounds llm pdfMcpTools stringify k s0
      in if continueLoop s \<and> iteration s < maxIterations
         then agentRound llm pdfMcpTools stringify (s\<lparr>iteration := iteration s + 1\<rparr>)
         else s)"
proof (induction k arbitrary: s0)
  case 0
  show ?case by simp
next
  case (Suc k)
  show ?case
  proof (cases "continueLoop s0 \<and> iteration s0 < maxIterations")
    case True
    let ?t = "agentRound llm pdfMcpTools stringify (s0\<lparr>iteration := iteration s0 + 1\<rparr>)"
    have a: "afterRounds llm pdfMcpTools stringify (Suc (Suc k)) s0
          = afterRounds llm pdfMcpTools stringify (Suc k) ?t"
      using True by (subst afterRounds.simps(2)) simp
    have b: "afterRounds llm pdfMcpTools stringify (Suc k) s0
          = afterRounds llm pdfMcpTools stringify k ?t"
      using True by (subst afterRounds.simps(2)) simp
    show ?thesis unfolding a b by (rule Suc)
  next
    case False
    then have "afterRounds llm pdfMcpTools stringify n s0 = s0" for n
      by (cases n) auto
    then show ?thesis using False by (auto simp: Let_def)
  qed
qed


text \<open>
  C6: let the loop, still running, start a round in state \<open>s\<close>, let the provider's reply
  carry the tool calls \<open>before @ toolCall # after\<close>, and let \<open>toolCall\<close> throw when its turn
  comes, that is on the documents left by the calls before it. Then in the state \<open>s'\<close>
  after that round the operations hold an entry for that call with \<open>success: false\<close> and
  the error, the messages hold a message of role \<open>tool\<close> for that call whose content is the
  serialised error, and the loop is still running, one round and one provider call
  further; the operations returned by \<open>runPdfAgent\<close> hold the entry; and when the next
  reply carries no tool calls, the turn ends with it: its text is appended as a plain
  assistant message and is the response (\<open>Operation completed.\<close> when it is empty, and
  the limit message when that reply came in the twentieth round).
\<close>

theorem tool_failure_contained:
  assumes s: "s = afterRounds llm pdfMcpTools stringify k (initialState userMessage docs history)"
    and running: "continueLoop s" "iteration s < maxIterations"
    and reply: "llm (llm_calls s) (messages s) = Inr result"
      "toolCalls result = Some (before @ toolCall # after)"
    and throws: "runTool pdfMcpTools toolCall
                   (documents (foldl (executeToolCall pdfMcpTools stringify) s before)) = Inl e"
    and s': "s' = agentRound llm pdfMcpTools stringify (s\<lparr>iteration := iteration s + 1\<rparr>)"
  shows "\<lparr>op_tool = tc_name toolCall, op_input = tc_input toolCall,
           op_result = failure (toolErrorMessage e)\<rparr> \<in> set (operations s')
       \<and> op_success_false (failure (toolErrorMessage e))
       \<and> \<lparr>role = tool, content = stringify (error_payload (toolErrorMessage e)),
           tool_call_id = Some (tc_id toolCall), name = Some (tc_name toolCall),
           tool_calls = None\<rparr> \<in> set (messages s')
       \<and> continueLoop s' \<and> iteration s' = iteration s + 1 \<and> llm_calls s' = llm_calls s + 1
       \<and> \<lparr>op_tool = tc_name toolCall, op_input = tc_input toolCall,
           op_result = failure (toolErrorMessage e)\<rparr>
           \<in> set (ar_operations (runPdfAgent llm pdfMcpTools stringify userMessage docs history))
       \<and> (\<forall>final. iteration s' < maxIterations
             \<and> llm (llm_calls s') (messages s') = Inr final \<and> noToolCalls final
           \<longrightarrow> messages (agentRun llm pdfMcpTools stringify userMessage docs history)
                 = messages s' @ [plainMessage assistant (r_content final)]
             \<and> response (runPdfAgent llm pdfMcpTools stringify userMessage docs history)
                 = (if iteration s' + 1 = maxIterations then limitMessage
                    else if r_content final = [] then ''Operation completed.''
                    else r_content final))"
proof -
  let ?op = "\<lparr>op_tool = tc_name toolCall, op_input = tc_input toolCall,
           op_result = failure (toolErrorMessage e)\<rparr>"
  let ?msg = "\<lparr>role = tool, content = stringify (error_payload (toolErrorMessage e)),
           tool_call_id = Some (tc_id toolCall), name = Some (tc_name toolCall),
           tool_calls = None\<rparr>"
  let ?exec = "executeToolCall pdfMcpTools stringify"
  let ?s1 = "s\<lparr>iteration := iteration s + 1\<rparr>"
  obtain tc tcs' where tcs: "before @ toolCall # after = tc # tcs'"
    by (cases "before @ toolCall # after") auto
  define s2 where "s2 = ?s1\<lparr>llm_calls := llm_calls ?s1 + 1,
                messages := messages ?s1 @
                  [\<lparr>role = assistant, content = r_content result, tool_call_id = None,
                    name = None, tool_calls = Some (tc # tcs')\<rparr>]\<rparr>"
  have round: "s' = foldl ?exec s2 (before @ toolCall # after)"
    using reply tcs by (simp add: s' agentRound_def s2_def)
  define sb where "sb = foldl ?exec s2 before"
  have "documents sb = documents (foldl ?exec s before)"
    unfolding sb_def by (rule foldl_executeToolCall_documents) (simp add: s2_def)
  then have fails: "runTool pdfMcpTools toolCall (documents sb) = Inl e"
    using throws by simp
  define sc where "sc = ?exec sb toolCall"
  have split: "s' = foldl ?exec sc after"
    by (simp add: round sb_def sc_def)
  have "?op \<in> set (operations sc)" "?msg \<in> set (messages sc)"
    unfolding sc_def using executeToolCall_catch [OF fails, of stringify] by simp_all
  then have inside: "?op \<in> set (operations s')" "?msg \<in> set (messages s')"
    unfolding split using foldl_executeToolCall_grows [of sc pdfMcpTools stringify after] by auto
  have control: "continueLoop s'" "iteration s' = iteration s + 1" "llm_calls s' = llm_calls s + 1"
    unfolding round using running(1)
    by (simp_all only: foldl_executeToolCall_control) (simp_all add: s2_def)
  have next_state: "s' = afterRounds llm pdfMcpTools stringify (Suc k) (initialState userMessage docs history)"
    unfolding afterRounds_Suc Let_def s [symmetric] s' using running by simp
  have run: "agentRun llm pdfMcpTools stringify userMessage docs history
             = agentLoop llm pdfMcpTools stringify s'"
    unfolding next_state agentRun_def by (simp only: agentLoop_afterRounds)
  have final_ops: "?op \<in> set (ar_operations (runPdfAgent llm pdfMcpTools stringify userMessage docs history))"
    using inside(1) agentLoop_grows [of s' llm pdfMcpTools stringify]
    by (auto simp: runPdfAgent_def finish_def Let_def run)
  have answer: "messages (agentRun llm pdfMcpTools stringify userMessage docs history)
                 = messages s' @ [plainMessage assistant (r_content final)]
             \<and> response (runPdfAgent llm pdfMcpTools stringify userMessage docs history)
                 = (if iteration s' + 1 = maxIterations then limitMessage
                    else if r_content final = [] then ''Operation completed.''
                    else r_content final)"
    if "iteration s' < maxIterations" "llm (llm_calls s') (messages s') = Inr final"
      "noToolCalls final" for final
    using agentRun_final [OF next_state control(1) that] that(1)
    by (simp add: runPdfAgent_def finish_def truthy_def limitMessage_def)
  show ?thesis
    using inside control final_ops answer by simp
qed

section \<open>The page tools (pdfMcpTools.ts) and the page operations (pdfOperations.ts)\<close>

subsection \<open>Numbers in template strings\<close>

definition digit :: "nat \<Rightarrow> char" where
  "digit d = ''0123456789'' ! d"

function digits :: "nat \<Rightarrow> string" where
  "digits n = (if n < 10 then [digit n] else digits (n div 10) @ [digit (n mod 10)])"
  by pat_completeness auto
termination
  by (relation "measure id") auto

declare digits.simps [simp del]

definition decimal :: "int \<Rightarrow> string" where
  "decimal i = (if i < 0 then CHR ''-'' # digits (nat (- i)) else digits (nat i))"

subsection \<open>The PDF library\<close>

text \<open>
  A loaded PDF is the list of its pages. \<open>PDFDocument.copyPages\<close> belongs to the library
  pdf-lib, not to this repository; it is modelled as the library implements it: for each
  index it reads \<open>srcPages[index]\<close> and dereferences the page, so an index outside the page
  array reads \<open>undefined\<close> and the dereference throws a \<open>TypeError\<close>.
\<close>

definition undefinedNode :: error where
  "undefinedNode = Error ''Cannot read properties of undefined (reading 'node')''"

fun copyPages :: "'p list \<Rightarrow> int list \<Rightarrow> error + 'p list" where
  "copyPages srcPages [] = Inr []"
| "copyPages srcPages (i # indices) =
     (if 0 \<le> i \<and> i < int (length srcPages)
      then (case copyPages srcPages indices of
              Inl e \<Rightarrow> Inl e
            | Inr copied \<Rightarrow> Inr (srcPages ! nat i # copied))
      else Inl undefinedNode)"

text \<open>
  \<open>Array.from({ length: n }, (_, i) => start - 1 + i)\<close>; a negative length counts as 0.
\<close>

definition arrayFrom :: "int \<Rightarrow> int \<Rightarrow> int list" where
  "arrayFrom n start = map (\<lambda>i. start - 1 + int i) [0..<nat n]"

subsection \<open>Loading a document\<close>

text \<open>
  \<open>downloadPdfFromS3\<close> followed by \<open>PDFDocument.load\<close>. Reading the bytes from storage and
  parsing them is the parameter \<open>load\<close>, from the document's URL to its pages.
\<close>

definition downloadPdfFromS3 ::
  "(string \<Rightarrow> error + 'p list) \<Rightarrow> string \<Rightarrow> Document list \<Rightarrow> error + 'p list" where
  "downloadPdfFromS3 load documentId docs =
     (case find (\<lambda>d. d_id d = documentId) docs of
        None \<Rightarrow>
          Inl (Error (''Document '' @ documentId @ '' not found. Available documents: ''
                      @ join '', '' (map d_id docs)))
      | Some doc \<Rightarrow>
          (if \<not> truthy (d_url doc) then Inl (Error (''Document '' @ documentId @ '' has no URL''))
           else load (d_url doc)))"

subsection \<open>split_pdf and move_pages, the tools\<close>

record PageRange =
  r_start :: int
  r_end :: int
  r_filename :: "string option"
  r_outputName :: "string option"

text \<open>
  A produced file: its name, its \<open>pages\<close> descriptor and the pages added to the new
  document. The random document id and the storage URL are left out.
\<close>

record 'p OutputFile =
  o_filename :: string
  o_pages :: string
  o_content :: "'p list"

definition rangeLabel :: "PageRange \<Rightarrow> string" where
  "rangeLabel rng = decimal (r_start rng) @ ''-'' @ decimal (r_end rng)"

definition splitFilename :: "PageRange \<Rightarrow> string" where
  "splitFilename rng =
     (if truthy_opt (r_filename rng) then the (r_filename rng)
      else if truthy_opt (r_outputName rng) then the (r_outputName rng)
      else ''split_'' @ rangeLabel rng)"

text \<open>The loop over \<open>input.pageRanges\<close>; the first range that throws ends the tool.\<close>

fun splitRanges :: "'p list \<Rightarrow> PageRange list \<Rightarrow> error + 'p OutputFile list" where
  "splitRanges pdfDoc [] = Inr []"
| "splitRanges pdfDoc (rng # ranges) =
     (case copyPages pdfDoc (arrayFrom (r_end rng - r_start rng + 1) (r_start rng)) of
        Inl e \<Rightarrow> Inl e
      | Inr pages \<Rightarrow>
          (case splitRanges pdfDoc ranges of
             Inl e \<Rightarrow> Inl e
           | Inr results \<Rightarrow>
               Inr (\<lparr>o_filename = splitFilename rng, o_pages = rangeLabel rng,
                     o_content = pages\<rparr> # results)))"

definition split_pdf ::
  "(string \<Rightarrow> error + 'p list) \<Rightarrow> string \<Rightarrow> PageRange list \<Rightarrow> Document list \<Rightarrow>
   error + 'p OutputFile list" where
  "split_pdf load documentId pageRanges docs =
     (case downloadPdfFromS3 load documentId docs of
        Inl e \<Rightarrow> Inl e
      | Inr pdfDoc \<Rightarrow> splitRanges pdfDoc pageRanges)"

definition move_pages ::
  "(string \<Rightarrow> error + 'p list) \<Rightarrow> string \<Rightarrow> int list \<Rightarrow> string option \<Rightarrow> string option \<Rightarrow>
   Document list \<Rightarrow> error + 'p OutputFile" where
  "move_pages load documentId pageOrder outputFilename outputName docs =
     (case downloadPdfFromS3 load documentId docs of
        Inl e \<Rightarrow> Inl e
      | Inr pdfDoc \<Rightarrow>
          (case copyPages pdfDoc (map (\<lambda>n. n - 1) pageOrder) of
             Inl e \<Rightarrow> Inl e
           | Inr pages \<Rightarrow>
               Inr \<lparr>o_filename =
                      (if truthy_opt outputFilename then the outputFilename
                       else if truthy_opt outputName then the outputName
                       else ''reordered''),
                    o_pages = [],
                    o_content = pages\<rparr>))"

subsection \<open>splitPDF and movePages, the operations\<close>

text \<open>
  The same two operations in \<open>pdfOperations.ts\<close>, on an already loaded document. Here the
  range is validated, the end is clamped and invalid indices are filtered out.
\<close>

fun splitPDF :: "'p list \<Rightarrow> PageRange list \<Rightarrow> error + 'p OutputFile list" where
  "splitPDF sourcePdf [] = Inr []"
| "splitPDF sourcePdf (rng # ranges) =
     (let start = r_start rng; end' = r_end rng; totalPages = int (length sourcePdf) in
      if start < 1 then
        Inl (Error (''Invalid start page '' @ decimal start @ '': must be >= 1''))
      else if end' < start then
        Inl (Error (''Invalid range: end ('' @ decimal end' @ '') < start ('' @ decimal start @ '')''))
      else if start > totalPages then
        Inl (Error (''Start page '' @ decimal start @ '' exceeds document length (''
                    @ decimal totalPages @ '' pages)''))
      else
        (let actualEnd = min end' totalPages in
         case copyPages sourcePdf (arrayFrom (actualEnd - start + 1) start) of
           Inl e \<Rightarrow> Inl e
         | Inr copiedPages \<Rightarrow>
             (case splitPDF sourcePdf ranges of
                Inl e \<Rightarrow> Inl e
              | Inr createdFiles \<Rightarrow>
                  Inr (\<lparr>o_filename = or_else (r_filename rng) [], o_pages = [],
                        o_content = copiedPages\<rparr> # createdFiles))))"

definition movePages :: "'p list \<Rightarrow> int list \<Rightarrow> error + 'p list" where
  "movePages sourcePdf pageOrder =
     (let totalPages = int (length sourcePdf);
          validPageIndices =
            filter (\<lambda>idx. idx \<ge> 0 \<and> idx < totalPages) (map (\<lambda>pageNum. pageNum - 1) pageOrder)
      in copyPages sourcePdf validPageIndices)"

subsection \<open>A five-page document\<close>

definition five_pages :: "nat list" where
  "five_pages = [1, 2, 3, 4, 5]"

definition one_document :: "Document list" where
  "one_document = [\<lparr>d_id = ''d1'', d_name = ''a.pdf'', d_url = ''/uploads/a.pdf'',
                     d_type = original, d_pages = ''5''\<rparr>]"

definition load_five :: "string \<Rightarrow> error + nat list" where
  "load_five url = Inr five_pages"


section \<open>Properties of the page tools\<close>

lemma copyPages_in_range:
  assumes "\<forall>i\<in>set indices. 0 \<le> i \<and> i < int (length srcPages)"
  shows "copyPages srcPages indices = Inr (map (\<lambda>i. srcPages ! nat i) indices)"
  using assms by (induction indices) simp_all

lemma copyPages_out_of_range:
  assumes "\<exists>i\<in>set indices. i < 0 \<or> int (length srcPages) \<le> i"
  shows "copyPages srcPages indices = Inl undefinedNode"
  using assms
proof (induction indices)
  case Nil
  then show ?case by simp
next
  case (Cons a indices)
  show ?case
  proof (cases "0 \<le> a \<and> a < int (length srcPages)")
    case True
    then have "\<exists>i\<in>set indices. i < 0 \<or> int (length srcPages) \<le> i"
      using Cons.prems by auto
    then have "copyPages srcPages indices = Inl undefinedNode" by (rule Cons.IH)
    then show ?thesis using True by simp
  next
    case False
    then show ?thesis by auto
  qed
qed

lemma arrayFrom_set: "set (arrayFrom n start) = {i. start - 1 \<le> i \<and> i < start - 1 + n}"
proof -
  have "\<exists>k<nat n. i = start - 1 + int k" if "start - 1 \<le> i" "i < start - 1 + n" for i
    using that by (intro exI[of _ "nat (i - (start - 1))"]) auto
  then show ?thesis by (auto simp: arrayFrom_def image_iff Bex_def)
qed

lemma length_arrayFrom: "length (arrayFrom n start) = nat n"
  by (simp add: arrayFrom_def)

text \<open>
  The operation \<open>splitPDF\<close> behaves as C1 describes: a range with
  \<open>1 \<le> start \<le> end\<close> and \<open>start \<le> N\<close> yields \<open>min(end, N) - start + 1\<close> pages, and a start
  below 1 or beyond the document is an error.
\<close>

lemma splitPDF_clamps:
  assumes "1 \<le> r_start rng" and "r_start rng \<le> r_end rng"
    and "r_start rng \<le> int (length sourcePdf)"
  shows "\<exists>file. splitPDF sourcePdf [rng] = Inr [file]
           \<and> int (length (o_content file))
               = min (r_end rng) (int (length sourcePdf)) - r_start rng + 1"
proof -
  let ?n = "min (r_end rng) (int (length sourcePdf)) - r_start rng + 1"
  have "\<forall>i\<in>set (arrayFrom ?n (r_start rng)). 0 \<le> i \<and> i < int (length sourcePdf)"
    using assms by (auto simp: arrayFrom_set)
  then have "copyPages sourcePdf (arrayFrom ?n (r_start rng))
      = Inr (map (\<lambda>i. sourcePdf ! nat i) (arrayFrom ?n (r_start rng)))"
    by (rule copyPages_in_range)
  then show ?thesis using assms by (simp add: Let_def length_arrayFrom)
qed

lemma splitPDF_rejects:
  assumes "r_start rng < 1 \<or> r_start rng > int (length sourcePdf)"
  shows "isl (splitPDF sourcePdf (rng # ranges))"
  using assms by (auto simp: Let_def)

text \<open>
  The tool \<open>split_pdf\<close> has neither the validation nor the clamp: whenever the end of a
  range lies beyond the document, the indices handed to \<open>copyPages\<close> leave the page array
  and the tool throws.
\<close>

lemma splitRanges_no_clamp:
  assumes "r_start rng \<le> r_end rng" and "int (length pdfDoc) < r_end rng"
  shows "splitRanges pdfDoc (rng # ranges) = Inl undefinedNode"
proof -
  have "r_end rng - 1 \<in> set (arrayFrom (r_end rng - r_start rng + 1) (r_start rng))"
    using assms by (simp add: arrayFrom_set)
  then have "copyPages pdfDoc (arrayFrom (r_end rng - r_start rng + 1) (r_start rng)) = Inl undefinedNode"
    using assms(2) by (intro copyPages_out_of_range) (auto intro!: bexI[of _ "r_end rng - 1"])
  then show ?thesis by simp
qed

text \<open>
  C1 at a failing input: on a five-page document the range \<open>[2, 9]\<close> should give a file
  of \<open>min(9, 5) - 2 + 1 = 4\<close> pages; the tool \<open>split_pdf\<close> throws instead and produces no
  file.
\<close>

theorem split_pdf_end_beyond_length:
  "split_pdf load_five ''d1''
     [\<lparr>r_start = 2, r_end = 9, r_filename = None, r_outputName = None\<rparr>] one_document
   = Inl undefinedNode"
proof -
  have "downloadPdfFromS3 load_five ''d1'' one_document = Inr five_pages"
    by (simp add: downloadPdfFromS3_def one_document_def truthy_def load_five_def)
  moreover have "splitRanges five_pages
      [\<lparr>r_start = 2, r_end = 9, r_filename = None, r_outputName = None\<rparr>] = Inl undefinedNode"
    by (rule splitRanges_no_clamp) (simp_all add: five_pages_def)
  ultimately show ?thesis by (simp add: split_pdf_def)
qed

text \<open>
  The operation \<open>movePages\<close> behaves as C3 describes: indices outside \<open>[1, pageCount]\<close>
  are dropped and the pages of the others are returned in the given order.
\<close>

lemma movePages_filters:
  "movePages sourcePdf pageOrder =
     Inr (map (\<lambda>n. sourcePdf ! nat (n - 1))
            (filter (\<lambda>n. 1 \<le> n \<and> n \<le> int (length sourcePdf)) pageOrder))"
proof -
  let ?valid = "filter (\<lambda>idx. idx \<ge> 0 \<and> idx < int (length sourcePdf)) (map (\<lambda>pageNum. pageNum - 1) pageOrder)"
  have "copyPages sourcePdf ?valid = Inr (map (\<lambda>i. sourcePdf ! nat i) ?valid)"
    by (rule copyPages_in_range) simp
  moreover have "map (\<lambda>i. sourcePdf ! nat i) ?valid
      = map (\<lambda>n. sourcePdf ! nat (n - 1)) (filter (\<lambda>n. 1 \<le> n \<and> n \<le> int (length sourcePdf)) pageOrder)"
    by (induction pageOrder) auto
  ultimately show ?thesis by (simp add: movePages_def Let_def)
qed

text \<open>
  The tool \<open>move_pages\<close> has no such filter: one index outside \<open>[1, pageCount]\<close> makes it
  throw.
\<close>

lemma move_pages_no_drop:
  assumes "downloadPdfFromS3 load documentId docs = Inr pdfDoc"
    and "\<exists>n\<in>set pageOrder. n < 1 \<or> int (length pdfDoc) < n"
  shows "move_pages load documentId pageOrder outputFilename outputName docs = Inl undefinedNode"
proof -
  have "copyPages pdfDoc (map (\<lambda>n. n - 1) pageOrder) = Inl undefinedNode"
    using assms(2) by (intro copyPages_out_of_range) auto
  then show ?thesis using assms(1) by (simp add: move_pages_def)
qed

text \<open>
  C3 at a failing input: on a five-page document the order \<open>[3, 99, 1]\<close> should give the
  two pages \<open>[3, 1]\<close>; the tool \<open>move_pages\<close> throws instead and produces no document.
\<close>

theorem move_pages_index_out_of_range:
  "move_pages load_five ''d1'' [3, 99, 1] None None one_document = Inl undefinedNode"
  by (rule move_pages_no_drop [where pdfDoc = five_pages])
     (simp_all add: downloadPdfFromS3_def one_document_def truthy_def load_five_def five_pages_def)

lemma movePages_example: "movePages five_pages [3, 99, 1] = Inr [3, 1]"
  by (simp add: movePages_filters five_pages_def)

subsection \<open>A document tool that fails in a run\<close>

text \<open>
  A registry holding \<open>split_pdf\<close> alone, and a provider that first asks to split a
  document that does not exist and then answers.
\<close>

definition documentIdOf :: "json \<Rightarrow> string" where
  "documentIdOf input =
     (case input of
        JObj kvs \<Rightarrow> (case map_of kvs ''documentId'' of Some (JStr v) \<Rightarrow> v | _ \<Rightarrow> [])
      | _ \<Rightarrow> [])"

definition split_pdf_tool :: tool_function where
  "split_pdf_tool input ds =
     (case split_pdf load_five (documentIdOf input) [] ds of
        Inl e \<Rightarrow> Inl e
      | Inr files \<Rightarrow>
          Inr \<lparr>to_id = [], to_url = [], to_filename = [], to_files = Some [], to_rest = JNull\<rparr>)"

definition split_only :: "string \<Rightarrow> tool_function option" where
  "split_only toolName = (if toolName = ''split_pdf'' then Some split_pdf_tool else None)"

definition call_missing :: LLMToolCall where
  "call_missing = \<lparr>tc_id = ''call_9'', tc_name = ''split_pdf'',
                    tc_input = JObj [(''documentId'', JStr ''d9'')]\<rparr>"

definition llm_fail_then_done :: "nat \<Rightarrow> LLMMessage list \<Rightarrow> error + LLMResponse" where
  "llm_fail_then_done n ms =
     (if n = 0
      then Inr \<lparr>r_content = [], toolCalls = Some [call_missing], stopReason = ''tool_use''\<rparr>
      else Inr \<lparr>r_content = ''Done.'', toolCalls = None, stopReason = ''end_turn''\<rparr>)"

lemma call_missing_throws:
  "runTool split_only call_missing one_document
   = Inl (Error ''Document d9 not found. Available documents: d1'')"
  by (simp add: runTool_def split_only_def call_missing_def split_pdf_tool_def split_pdf_def
      documentIdOf_def downloadPdfFromS3_def one_document_def)

theorem tool_failure_contained_witness:
  "\<lparr>op_tool = ''split_pdf'', op_input = JObj [(''documentId'', JStr ''d9'')],
     op_result = failure ''Document d9 not found. Available documents: d1''\<rparr>
     \<in> set (ar_operations
          (runPdfAgent llm_fail_then_done split_only payload_stub ''hello'' one_document None))
   \<and> messages (agentRun llm_fail_then_done split_only payload_stub ''hello'' one_document None)
       = initialMessages ''hello'' one_document None
         @ [\<lparr>role = assistant, content = [], tool_call_id = None, name = None,
             tool_calls = Some [call_missing]\<rparr>,
            \<lparr>role = tool, content = ''Document d9 not found. Available documents: d1'',
             tool_call_id = Some ''call_9'', name = Some ''split_pdf'', tool_calls = None\<rparr>,
            plainMessage assistant ''Done.'']
   \<and> response (runPdfAgent llm_fail_then_done split_only payload_stub ''hello'' one_document None)
       = ''Done.''"
proof -
  let ?s = "initialState ''hello'' one_document None"
  let ?s' = "agentRound llm_fail_then_done split_only payload_stub (?s\<lparr>iteration := iteration ?s + 1\<rparr>)"
  have s': "?s' = ?s\<lparr>iteration := 1, llm_calls := 1,
      logs := [log_tool_use ''split_pdf'' (JObj [(''documentId'', JStr ''d9'')]),
               log_tool_error ''split_pdf'' ''Document d9 not found. Available documents: d1''],
      messages := initialMessages ''hello'' one_document None
         @ [\<lparr>role = assistant, content = [], tool_call_id = None, name = None,
             tool_calls = Some [call_missing]\<rparr>,
            \<lparr>role = tool, content = ''Document d9 not found. Available documents: d1'',
             tool_call_id = Some ''call_9'', name = Some ''split_pdf'', tool_calls = None\<rparr>],
      operations := [\<lparr>op_tool = ''split_pdf'', op_input = JObj [(''documentId'', JStr ''d9'')],
                      op_result = failure ''Document d9 not found. Available documents: d1''\<rparr>]\<rparr>"
    using call_missing_throws
    by (simp add: agentRound_def llm_fail_then_done_def executeToolCall_def Let_def initialState_def
        toolErrorMessage_def truthy_def toolMessage_def payload_stub_def)
       (simp add: call_missing_def)
  from tool_failure_contained
    [of ?s llm_fail_then_done split_only payload_stub 0 "''hello''" one_document None
        "\<lparr>r_content = [], toolCalls = Some [call_missing], stopReason = ''tool_use''\<rparr>"
        "[]" call_missing "[]" "Error ''Document d9 not found. Available documents: d1''" ?s']
  show ?thesis
    using call_missing_throws
    apply (simp only: s')
    apply (simp add: initialState_def maxIterations_def llm_fail_then_done_def noToolCalls_def
        toolErrorMessage_def truthy_def call_missing_def payload_stub_def)
    done
qed

section \<open>The whitespace search (find_whitespace in pdfMcpTools.ts)\<close>

text \<open>
  JavaScript numbers are binary64 doubles. Pixel counts and coordinates are integers,
  which doubles hold exactly. Lengths in inches and points and the scores are modelled as
  exact rationals, with one exception: the products \<open>minWidthInches * dpi\<close> and
  \<open>minHeightInches * dpi\<close> under \<open>Math.floor\<close>, where the rounding of the product decides an
  integer, are rounded as binary64 rounds them. The rounding of the returned quotients and
  of the scores (a relative error of at most \<open>2^-53\<close>) is outside the model.
\<close>

subsection \<open>Products in double precision\<close>

text \<open>The number of binary digits of a positive integer.\<close>

function bitLength :: "int \<Rightarrow> nat" where
  "bitLength n = (if n \<le> 0 then 0 else Suc (bitLength (n div 2)))"
  by pat_completeness auto
termination
  by (relation "measure nat") auto

declare bitLength.simps [simp del]

definition pow2 :: "int \<Rightarrow> rat" where
  "pow2 k = (if 0 \<le> k then 2 ^ nat k else 1 / 2 ^ nat (- k))"

text \<open>
  The exponent \<open>e\<close> with \<open>2^e \<le> x < 2^(e+1)\<close>, for a positive \<open>x = a / b\<close> in lowest terms:
  \<open>a / b\<close> lies strictly between \<open>2^(k-1)\<close> and \<open>2^(k+1)\<close> for the difference \<open>k\<close> of the
  bit lengths.
\<close>

definition binade :: "rat \<Rightarrow> int" where
  "binade x =
     (case quotient_of x of (a, b) \<Rightarrow>
        (let k = int (bitLength a) - int (bitLength b)
         in if pow2 k \<le> x then k else k - 1))"

text \<open>Rounding to the nearest integer, a tie to the even one.\<close>

definition roundHalfEven :: "rat \<Rightarrow> int" where
  "roundHalfEven m =
     (let f = \<lfloor>m\<rfloor>; d = m - of_int f
      in if d < 1 / 2 then f else if 1 / 2 < d then f + 1 else if even f then f else f + 1)"

text \<open>
  The double nearest to \<open>x\<close>: \<open>x\<close> is rounded to 53 significant binary digits, ties to
  even. The exponent is not bounded, so overflow and subnormal numbers are outside the
  model.
\<close>

definition toDouble :: "rat \<Rightarrow> rat" where
  "toDouble x =
     (if x = 0 then 0
      else (let u = pow2 (binade \<bar>x\<bar> - 52)
            in sgn x * of_int (roundHalfEven (\<bar>x\<bar> / u)) * u))"

text \<open>\<open>a * b\<close> on two numbers: both are doubles and so is the product.\<close>

definition fmul :: "rat \<Rightarrow> rat \<Rightarrow> rat" where
  "fmul a b = toDouble (toDouble a * toDouble b)"

subsection \<open>The input\<close>

record FindWhitespaceInput =
  fw_documentId :: string
  fw_minWidthInches :: "rat option"
  fw_minHeightInches :: "rat option"
  fw_minWidth :: "rat option"
  fw_minHeight :: "rat option"
  fw_page :: "int option"
  fw_pageNumber :: "int option"
  fw_prefer :: "string option"

text \<open>
  The grayscale raster that \<open>sharp\<close> returns: \<open>info.width\<close>, \<open>info.height\<close> and the bytes
  \<open>data\<close>, one per pixel, row by row.
\<close>

record Raster =
  info_width :: nat
  info_height :: nat
  data :: "nat list"

definition dpi :: int where
  "dpi = 150"

definition threshold :: nat where
  "threshold = 250"

text \<open>\<open>0.5 * dpi\<close>, floored.\<close>

definition marginPx :: int where
  "marginPx = 75"

text \<open>\<open>a || b\<close> on optional numbers: absent and 0 are falsy.\<close>

fun truthy_num :: "'a::zero option \<Rightarrow> bool" where
  "truthy_num None = False"
| "truthy_num (Some v) = (v \<noteq> 0)"

definition minWidthInchesOf :: "FindWhitespaceInput \<Rightarrow> rat" where
  "minWidthInchesOf input =
     (if truthy_num (fw_minWidthInches input) then the (fw_minWidthInches input)
      else if truthy_num (fw_minWidth input) then the (fw_minWidth input) / 72
      else 3 / 2)"

definition minHeightInchesOf :: "FindWhitespaceInput \<Rightarrow> rat" where
  "minHeightInchesOf input =
     (if truthy_num (fw_minHeightInches input) then the (fw_minHeightInches input)
      else if truthy_num (fw_minHeight input) then the (fw_minHeight input) / 72
      else 1 / 2)"

definition pageToCheckOf :: "FindWhitespaceInput \<Rightarrow> int" where
  "pageToCheckOf input =
     (if truthy_num (fw_page input) then the (fw_page input)
      else if truthy_num (fw_pageNumber input) then the (fw_pageNumber input)
      else 1)"

definition preferOf :: "FindWhitespaceInput \<Rightarrow> string" where
  "preferOf input = or_else (fw_prefer input) ''bottom-right''"

subsection \<open>The integral image\<close>

text \<open>
  \<open>data[idx] >= threshold ? 1 : 0\<close>; an index outside the buffer reads \<open>undefined\<close>, which
  is not \<open>>= threshold\<close>.
\<close>

definition isWhite :: "nat list \<Rightarrow> nat \<Rightarrow> int" where
  "isWhite d idx = (if idx < length d \<and> d ! idx \<ge> threshold then 1 else 0)"

text \<open>The assignment \<open>integral[r][c] = v\<close>.\<close>

definition assign :: "int list list \<Rightarrow> nat \<Rightarrow> nat \<Rightarrow> int \<Rightarrow> int list list" where
  "assign integral r c v = integral[r := (integral ! r)[c := v]]"

text \<open>The inner loop \<open>for (x = ...; x < width; x++)\<close> of the construction, from \<open>x\<close> on.\<close>

function integralRow :: "nat list \<Rightarrow> nat \<Rightarrow> nat \<Rightarrow> nat \<Rightarrow> int list list \<Rightarrow> int list list" where
  "integralRow d width y x integral =
     (if x < width
      then integralRow d width y (x + 1)
             (assign integral (y + 1) (x + 1)
                (isWhite d (y * width + x) + integral ! y ! (x + 1) + integral ! (y + 1) ! x
                   - integral ! y ! x))
      else integral)"
  by pat_completeness auto
termination
  by (relation "measure (\<lambda>(d, width, y, x, integral). width - x)") auto

declare integralRow.simps [simp del]

text \<open>The outer loop \<open>for (y = ...; y < height; y++)\<close>, from \<open>y\<close> on.\<close>

function integralRows :: "nat list \<Rightarrow> nat \<Rightarrow> nat \<Rightarrow> nat \<Rightarrow> int list list \<Rightarrow> int list list" where
  "integralRows d width height y integral =
     (if y < height
      then integralRows d width height (y + 1) (integralRow d width y 0 integral)
      else integral)"
  by pat_completeness auto
termination
  by (relation "measure (\<lambda>(d, width, height, y, integral). height - y)") auto

declare integralRows.simps [simp del]

definition buildIntegral :: "Raster \<Rightarrow> int list list" where
  "buildIntegral raster =
     integralRows (data raster) (info_width raster) (info_height raster) 0
       (replicate (info_height raster + 1) (replicate (info_width raster + 1) 0))"

text \<open>
  Reading \<open>integral[y][x]\<close>: a row index outside the table reads \<open>undefined\<close> and indexing
  it throws; a column index outside the row reads \<open>undefined\<close> (\<open>None\<close>).
\<close>

definition readIntegral :: "int list list \<Rightarrow> int \<Rightarrow> int \<Rightarrow> error + int option" where
  "readIntegral integral y x =
     (if 0 \<le> y \<and> y < int (length integral)
      then Inr (if 0 \<le> x \<and> x < int (length (integral ! nat y))
                then Some (integral ! nat y ! nat x) else None)
      else Inl (Error (''Cannot read properties of undefined (reading ''
                       @ [CHR 0x27] @ decimal x @ [CHR 0x27] @ '')'')))"

text \<open>
  \<open>regionIsClear\<close>. The four reads happen from left to right; arithmetic on \<open>undefined\<close>
  gives \<open>NaN\<close>, which is not \<open>===\<close> to anything.
\<close>

definition regionIsClear :: "int list list \<Rightarrow> int \<Rightarrow> int \<Rightarrow> int \<Rightarrow> int \<Rightarrow> error + bool" where
  "regionIsClear integral x1 y1 x2 y2 =
     (case readIntegral integral y2 x2 of Inl e \<Rightarrow> Inl e | Inr a \<Rightarrow>
      case readIntegral integral y1 x2 of Inl e \<Rightarrow> Inl e | Inr b \<Rightarrow>
      case readIntegral integral y2 x1 of Inl e \<Rightarrow> Inl e | Inr c \<Rightarrow>
      case readIntegral integral y1 x1 of Inl e \<Rightarrow> Inl e | Inr d \<Rightarrow>
        (case (a, b, c, d) of
           (Some a', Some b', Some c', Some d') \<Rightarrow>
             Inr (a' - b' - c' + d' = (x2 - x1) * (y2 - y1))
         | _ \<Rightarrow> Inr False))"

subsection \<open>The scan\<close>

record Candidate =
  c_x :: int
  c_y :: int
  score :: rat

text \<open>What the scan loops read: the table, the raster size, the window and the preference.\<close>

record Scan =
  sc_integral :: "int list list"
  sc_width :: int
  sc_height :: int
  minWidthPx :: int
  minHeightPx :: int
  sc_prefer :: string

definition stepX :: "Scan \<Rightarrow> int" where
  "stepX sc = max 1 (minWidthPx sc div 4)"

definition stepY :: "Scan \<Rightarrow> int" where
  "stepY sc = max 1 (minHeightPx sc div 4)"

definition scoreAt :: "Scan \<Rightarrow> int \<Rightarrow> int \<Rightarrow> rat" where
  "scoreAt sc x y =
     (let nx = of_int x / of_int (max 1 (sc_width sc - minWidthPx sc));
          ny = of_int y / of_int (max 1 (sc_height sc - minHeightPx sc))
      in if sc_prefer sc = ''bottom-right'' then nx + ny
         else if sc_prefer sc = ''bottom-left'' then (1 - nx) + ny
         else if sc_prefer sc = ''top-right'' then nx + (1 - ny)
         else if sc_prefer sc = ''top-left'' then (1 - nx) + (1 - ny)
         else if sc_prefer sc = ''bottom'' then ny
         else if sc_prefer sc = ''top'' then 1 - ny
         else 0)"

text \<open>The inner scan loop over \<open>x\<close>, from \<open>x\<close> on, appending to \<open>candidates\<close>.\<close>

function scanRow :: "Scan \<Rightarrow> int \<Rightarrow> int \<Rightarrow> Candidate list \<Rightarrow> error + Candidate list" where
  "scanRow sc y x candidates =
     (if x \<le> sc_width sc - minWidthPx sc - marginPx
      then (case regionIsClear (sc_integral sc) x y (x + minWidthPx sc) (y + minHeightPx sc) of
              Inl e \<Rightarrow> Inl e
            | Inr clear \<Rightarrow>
                scanRow sc y (x + stepX sc)
                  (if clear then candidates @ [\<lparr>c_x = x, c_y = y, score = scoreAt sc x y\<rparr>]
                   else candidates))
      else Inr candidates)"
  by pat_completeness auto
termination
  by (relation "measure (\<lambda>(sc, y, x, candidates). nat (sc_width sc - minWidthPx sc - marginPx - x + 1))")
     (auto simp: stepX_def)

declare scanRow.simps [simp del]

text \<open>The outer scan loop over \<open>y\<close>, from \<open>y\<close> on.\<close>

function scanRows :: "Scan \<Rightarrow> int \<Rightarrow> Candidate list \<Rightarrow> error + Candidate list" where
  "scanRows sc y candidates =
     (if y \<le> sc_height sc - minHeightPx sc - marginPx
      then (case scanRow sc y marginPx candidates of
              Inl e \<Rightarrow> Inl e
            | Inr candidates' \<Rightarrow> scanRows sc (y + stepY sc) candidates')
      else Inr candidates)"
  by pat_completeness auto
termination
  by (relation "measure (\<lambda>(sc, y, candidates). nat (sc_height sc - minHeightPx sc - marginPx - y + 1))")
     (auto simp: stepY_def)

declare scanRows.simps [simp del]

definition scanOf :: "Raster \<Rightarrow> rat \<Rightarrow> rat \<Rightarrow> string \<Rightarrow> Scan" where
  "scanOf raster minWidthInches minHeightInches prefer =
     \<lparr>sc_integral = buildIntegral raster,
      sc_width = int (info_width raster),
      sc_height = int (info_height raster),
      minWidthPx = \<lfloor>fmul minWidthInches (of_int dpi)\<rfloor>,
      minHeightPx = \<lfloor>fmul minHeightInches (of_int dpi)\<rfloor>,
      sc_prefer = prefer\<rparr>"

definition findCandidates :: "Scan \<Rightarrow> error + Candidate list" where
  "findCandidates sc = scanRows sc marginPx []"

subsection \<open>Ranking and the result\<close>

text \<open>
  \<open>candidates.sort((a, b) => b.score - a.score)\<close>: a stable sort by descending score.
\<close>

definition sortByScore :: "Candidate list \<Rightarrow> Candidate list" where
  "sortByScore candidates = sort_key (\<lambda>c. - score c) candidates"

record Region =
  rank :: nat
  xInches :: rat
  yInches :: rat
  xPoints :: rat
  yPoints :: rat
  widthInches :: rat
  heightInches :: rat

definition toRegion :: "Scan \<Rightarrow> rat \<Rightarrow> rat \<Rightarrow> nat \<times> Candidate \<Rightarrow> Region" where
  "toRegion sc minWidthInches minHeightInches ic =
     (case ic of (i, c) \<Rightarrow>
       \<lparr>rank = i + 1,
        xInches = of_int (c_x c) / of_int dpi,
        yInches = of_int (sc_height sc - c_y c - minHeightPx sc) / of_int dpi,
        xPoints = (of_int (c_x c) / of_int dpi) * 72,
        yPoints = (of_int (sc_height sc - c_y c - minHeightPx sc) / of_int dpi) * 72,
        widthInches = minWidthInches,
        heightInches = minHeightInches\<rparr>)"

text \<open>The returned object, without its \<open>message\<close> text.\<close>

record WhitespaceResult =
  ws_page :: int
  pageWidthInches :: rat
  pageHeightInches :: rat
  searchedWidthInches :: rat
  searchedHeightInches :: rat
  searchedPrefer :: string
  found :: bool
  candidatesFound :: nat
  regions :: "Region list"

definition searchRaster ::
  "Raster \<Rightarrow> rat \<times> rat \<Rightarrow> int \<Rightarrow> rat \<Rightarrow> rat \<Rightarrow> string \<Rightarrow> error + WhitespaceResult" where
  "searchRaster raster pageSize pageToCheck minWidthInches minHeightInches prefer =
     (let sc = scanOf raster minWidthInches minHeightInches prefer in
      case findCandidates sc of
        Inl e \<Rightarrow> Inl e
      | Inr candidates \<Rightarrow>
          (let rs = map (toRegion sc minWidthInches minHeightInches)
                        (enumerate 0 (take 5 (sortByScore candidates)))
           in Inr \<lparr>ws_page = pageToCheck,
                   pageWidthInches = fst pageSize / 72,
                   pageHeightInches = snd pageSize / 72,
                   searchedWidthInches = minWidthInches,
                   searchedHeightInches = minHeightInches,
                   searchedPrefer = prefer,
                   found = (length rs > 0),
                   candidatesFound = length candidates,
                   regions = rs\<rparr>))"

text \<open>
  The tool. Loading the document is \<open>load\<close>, as for the page tools; \<open>getSize\<close> gives the
  size of a page in points; \<open>rasterize\<close> stands for writing the file, converting the page
  with pdf2pic and reading it back with sharp. \<open>getPage\<close> of pdf-lib throws on an index
  outside the document.
\<close>

definition find_whitespace ::
  "(string \<Rightarrow> error + 'p list) \<Rightarrow> ('p \<Rightarrow> rat \<times> rat) \<Rightarrow> ('p list \<Rightarrow> int \<Rightarrow> error + Raster) \<Rightarrow>
   FindWhitespaceInput \<Rightarrow> Document list \<Rightarrow> error + WhitespaceResult" where
  "find_whitespace load getSize rasterize input docs =
     (case downloadPdfFromS3 load (fw_documentId input) docs of
        Inl e \<Rightarrow> Inl e
      | Inr pdfDoc \<Rightarrow>
          (let pageToCheck = pageToCheckOf input in
           if pageToCheck - 1 < 0 \<or> int (length pdfDoc) \<le> pageToCheck - 1
           then Inl (Error ''index out of range'')
           else
             (case rasterize pdfDoc pageToCheck of
                Inl e \<Rightarrow> Inl e
              | Inr raster \<Rightarrow>
                  (if info_width raster = 0 \<or> info_height raster = 0
                   then Inl (Error ''Could not read image dimensions'')
                   else searchRaster raster (getSize (pdfDoc ! nat (pageToCheck - 1))) pageToCheck
                          (minWidthInchesOf input) (minHeightInchesOf input) (preferOf input)))))"

section \<open>Properties of the whitespace search\<close>

subsection \<open>The integral image counts the clear pixels\<close>

text \<open>
  The number of clear pixels among the first \<open>x\<close> pixels of the first \<open>y\<close> rows.
\<close>

definition whiteCount :: "nat list \<Rightarrow> nat \<Rightarrow> nat \<Rightarrow> nat \<Rightarrow> int" where
  "whiteCount d width y x = (\<Sum>j<y. \<Sum>i<x. isWhite d (j * width + i))"

lemma whiteCount_0 [simp]: "whiteCount d width 0 x = 0" "whiteCount d width y 0 = 0"
  by (simp_all add: whiteCount_def)

lemma whiteCount_step:
  "whiteCount d width (Suc y) (Suc x) =
     isWhite d (y * width + x) + whiteCount d width y (Suc x) + whiteCount d width (Suc y) x
       - whiteCount d width y x"
  by (simp add: whiteCount_def)

lemma assign_nth:
  assumes "r < length integral" and "c < length (integral ! r)"
  shows "assign integral r c v ! r' ! c' = (if r' = r \<and> c' = c then v else integral ! r' ! c')"
  using assms by (auto simp: assign_def nth_list_update)

lemma assign_length [simp]: "length (assign integral r c v) = length integral"
  by (simp add: assign_def)

lemma assign_row_length [simp]:
  "length (assign integral r c v ! r') = length (integral ! r')"
  by (cases "r < length integral") (auto simp: assign_def nth_list_update list_update_beyond)

text \<open>
  The invariants of the construction: the table keeps its shape and its zero column;
  the rows up to \<open>y\<close> are finished; row \<open>y + 1\<close> is finished up to column \<open>x\<close>.
\<close>

definition tableShape :: "nat \<Rightarrow> nat \<Rightarrow> int list list \<Rightarrow> bool" where
  "tableShape width height integral =
     (length integral = height + 1 \<and> (\<forall>r\<le>height. length (integral ! r) = width + 1)
      \<and> (\<forall>r\<le>height. integral ! r ! 0 = 0))"

definition rowsDone :: "nat list \<Rightarrow> nat \<Rightarrow> nat \<Rightarrow> int list list \<Rightarrow> bool" where
  "rowsDone d width y integral =
     (\<forall>r\<le>y. \<forall>c\<le>width. integral ! r ! c = whiteCount d width r c)"

definition rowPart :: "nat list \<Rightarrow> nat \<Rightarrow> nat \<Rightarrow> nat \<Rightarrow> int list list \<Rightarrow> bool" where
  "rowPart d width y x integral =
     (\<forall>c\<le>x. integral ! (y + 1) ! c = whiteCount d width (y + 1) c)"

lemma integralRow_inv:
  "y < height \<Longrightarrow> x \<le> width \<Longrightarrow> tableShape width height integral \<Longrightarrow>
   rowsDone d width y integral \<Longrightarrow> rowPart d width y x integral \<Longrightarrow>
   tableShape width height (integralRow d width y x integral)
   \<and> rowsDone d width (y + 1) (integralRow d width y x integral)"
proof (induction d width y x integral rule: integralRow.induct)
  case (1 d width y x integral)
  show ?case
  proof (cases "x < width")
    case False
    then have xw: "x = width" using 1(3) by simp
    have same: "integralRow d width y x integral = integral"
      using False by (subst integralRow.simps) simp
    have "rowsDone d width (y + 1) integral"
      unfolding rowsDone_def
    proof (intro allI impI)
      fix r c assume "r \<le> y + 1" "c \<le> width"
      then show "integral ! r ! c = whiteCount d width r c"
        using 1(5,6) xw by (cases "r = y + 1") (auto simp: rowsDone_def rowPart_def)
    qed
    then show ?thesis using 1(4) same by simp
  next
    case True
    define v where "v = isWhite d (y * width + x) + integral ! y ! (x + 1) + integral ! (y + 1) ! x
                   - integral ! y ! x"
    define I' where "I' = assign integral (y + 1) (x + 1) v"
    have len: "y + 1 < length integral" "x + 1 < length (integral ! (y + 1))"
      using 1(2,4) True by (auto simp: tableShape_def)
    have nth: "I' ! r' ! c' = (if r' = y + 1 \<and> c' = x + 1 then v else integral ! r' ! c')" for r' c'
      unfolding I'_def using assign_nth [OF len] by simp
    have lens: "length I' = length integral" "length (I' ! r') = length (integral ! r')" for r'
      unfolding I'_def by simp_all
    have v: "v = whiteCount d width (y + 1) (x + 1)"
      unfolding v_def using 1(5,6) True by (simp add: rowsDone_def rowPart_def whiteCount_step)
    have shape: "tableShape width height I'"
      using 1(4) by (auto simp: tableShape_def nth lens)
    have rows: "rowsDone d width y I'"
      using 1(5) by (auto simp: rowsDone_def nth)
    have part: "rowPart d width y (x + 1) I'"
      unfolding rowPart_def
    proof (intro allI impI)
      fix c assume "c \<le> x + 1"
      then show "I' ! (y + 1) ! c = whiteCount d width (y + 1) c"
        using 1(6) v by (cases "c = x + 1") (auto simp: rowPart_def nth)
    qed
    have step: "integralRow d width y x integral = integralRow d width y (x + 1) I'"
      unfolding I'_def v_def using True by (subst integralRow.simps) simp
    have "x + 1 \<le> width" using True by simp
    from 1(1) [OF True 1(2) this, folded v_def, folded I'_def, OF shape rows part]
    show ?thesis unfolding step .
  qed
qed

lemma integralRows_inv:
  "y \<le> height \<Longrightarrow> tableShape width height integral \<Longrightarrow> rowsDone d width y integral \<Longrightarrow>
   tableShape width height (integralRows d width height y integral)
   \<and> rowsDone d width height (integralRows d width height y integral)"
proof (induction d width height y integral rule: integralRows.induct)
  case (1 d width height y integral)
  show ?case
  proof (cases "y < height")
    case False
    then have "integralRows d width height y integral = integral"
      by (subst integralRows.simps) simp
    moreover have "y = height" using False 1(2) by simp
    ultimately show ?thesis using 1(3,4) by simp
  next
    case True
    let ?I = "integralRow d width y 0 integral"
    have part: "rowPart d width y 0 integral"
      using 1(3) True by (simp add: rowPart_def tableShape_def)
    have inv: "tableShape width height ?I \<and> rowsDone d width (y + 1) ?I"
      using integralRow_inv [OF True _ 1(3,4) part] by simp
    have step: "integralRows d width height y integral = integralRows d width height (y + 1) ?I"
      using True by (subst integralRows.simps) simp
    show ?thesis unfolding step using 1(1) [OF True] True inv by simp
  qed
qed

lemma buildIntegral_correct:
  "tableShape (info_width raster) (info_height raster) (buildIntegral raster)
   \<and> rowsDone (data raster) (info_width raster) (info_height raster) (buildIntegral raster)"
proof -
  let ?w = "info_width raster" and ?h = "info_height raster"
  let ?I = "replicate (?h + 1) (replicate (?w + 1) (0::int))"
  have row: "?I ! r = replicate (?w + 1) 0" if "r \<le> ?h" for r
    using that by (intro nth_replicate) simp
  have cell: "?I ! r ! c = 0" if "r \<le> ?h" "c \<le> ?w" for r c
    unfolding row [OF that(1)] using that(2) by (intro nth_replicate) simp
  have "tableShape ?w ?h ?I"
    unfolding tableShape_def using row cell by (simp del: replicate_Suc replicate.simps)
  moreover have "rowsDone (data raster) ?w 0 ?I"
    unfolding rowsDone_def using cell by (simp del: replicate_Suc replicate.simps)
  ultimately show ?thesis
    unfolding buildIntegral_def by (intro integralRows_inv) simp_all
qed

subsection \<open>The clear test\<close>





lemma readIntegral_table:
  assumes "tableShape width height integral" and "rowsDone d width height integral"
    and "0 \<le> y" "y \<le> int height" "0 \<le> x" "x \<le> int width"
  shows "readIntegral integral y x = Inr (Some (whiteCount d width (nat y) (nat x)))"
  using assms by (auto simp: readIntegral_def tableShape_def rowsDone_def)



subsection \<open>Every candidate passed the clear test\<close>





subsection \<open>Returned regions\<close>




lemma searchRaster_candidates:
  assumes "searchRaster raster pageSize pageToCheck minWidthInches minHeightInches prefer = Inr res"
  obtains candidates where
    "findCandidates (scanOf raster minWidthInches minHeightInches prefer) = Inr candidates"
    "candidatesFound res = length candidates"
    "regions res = map (toRegion (scanOf raster minWidthInches minHeightInches prefer)
                          minWidthInches minHeightInches)
                       (enumerate 0 (take 5 (sortByScore candidates)))"
  using assms by (auto simp: searchRaster_def Let_def split: sum.splits)

lemma find_whitespace_search:
  assumes "find_whitespace load getSize rasterize input docs = Inr res"
  obtains pdfDoc raster where
    "downloadPdfFromS3 load (fw_documentId input) docs = Inr pdfDoc"
    "rasterize pdfDoc (pageToCheckOf input) = Inr raster"
    "searchRaster raster (getSize (pdfDoc ! nat (pageToCheckOf input - 1))) (pageToCheckOf input)
       (minWidthInchesOf input) (minHeightInchesOf input) (preferOf input) = Inr res"
  using assms by (auto simp: find_whitespace_def Let_def split: sum.splits if_splits)



lemma sortByScore_mset: "mset (sortByScore candidates) = mset candidates"
  by (simp add: sortByScore_def)

lemma sortByScore_sorted:
  "sorted_wrt (\<lambda>a b. score b \<le> score a) (sortByScore candidates)"
proof -
  have "sorted (map (\<lambda>c. - score c) (sortByScore candidates))"
    unfolding sortByScore_def by (rule sorted_sort_key)
  then show ?thesis by (simp add: sorted_map sorted_wrt_iff_nth_less)
qed

lemma top_beats_rest:
  assumes "a \<in> set (take n (sortByScore candidates))" "b \<in> set (drop n (sortByScore candidates))"
  shows "score b \<le> score a"
proof -
  have "sorted_wrt (\<lambda>a b. score b \<le> score a)
          (take n (sortByScore candidates) @ drop n (sortByScore candidates))"
    using sortByScore_sorted [of candidates] by simp
  then show ?thesis using assms unfolding sorted_wrt_append by blast
qed

text \<open>
  C10: \<open>find_whitespace\<close> returns at most 5 regions. \<open>candidatesFound\<close> is the number of
  all candidates of the scan, the regions are the first \<open>min 5 candidatesFound\<close> candidates
  of the list sorted by descending score (a rearrangement of the candidates), with ranks
  1, 2, ... in that order, and no candidate left out has a higher score than a returned
  one.
\<close>

theorem at_most_five_regions:
  assumes "find_whitespace load getSize rasterize input docs = Inr res"
  shows "length (regions res) \<le> 5
       \<and> (\<exists>pdfDoc raster candidates.
            downloadPdfFromS3 load (fw_documentId input) docs = Inr pdfDoc
          \<and> rasterize pdfDoc (pageToCheckOf input) = Inr raster
          \<and> findCandidates (scanOf raster (minWidthInchesOf input) (minHeightInchesOf input)
                (preferOf input)) = Inr candidates
          \<and> candidatesFound res = length candidates
          \<and> length (regions res) = min 5 (length candidates)
          \<and> mset (sortByScore candidates) = mset candidates
          \<and> sorted_wrt (\<lambda>a b. score b \<le> score a) (sortByScore candidates)
          \<and> regions res
              = map (toRegion (scanOf raster (minWidthInchesOf input) (minHeightInchesOf input)
                       (preferOf input)) (minWidthInchesOf input) (minHeightInchesOf input))
                  (enumerate 0 (take 5 (sortByScore candidates)))
          \<and> (\<forall>n<length (regions res). rank (regions res ! n) = n + 1)
          \<and> (\<forall>a\<in>set (take 5 (sortByScore candidates)).
               \<forall>b\<in>set (drop 5 (sortByScore candidates)). score b \<le> score a))"
proof -
  let ?mw = "minWidthInchesOf input" and ?mh = "minHeightInchesOf input"
  from find_whitespace_search [OF assms] obtain pdfDoc raster where
    doc: "downloadPdfFromS3 load (fw_documentId input) docs = Inr pdfDoc"
    and raster: "rasterize pdfDoc (pageToCheckOf input) = Inr raster"
    and search: "searchRaster raster (getSize (pdfDoc ! nat (pageToCheckOf input - 1)))
       (pageToCheckOf input) ?mw ?mh (preferOf input) = Inr res"
    by blast
  let ?sc = "scanOf raster ?mw ?mh (preferOf input)"
  from searchRaster_candidates [OF search] obtain candidates where
    cands: "findCandidates ?sc = Inr candidates"
    and count: "candidatesFound res = length candidates"
    and regs: "regions res = map (toRegion ?sc ?mw ?mh) (enumerate 0 (take 5 (sortByScore candidates)))"
    by blast
  have len: "length (regions res) = min 5 (length candidates)"
    by (simp add: regs sortByScore_def min.commute)
  have ranks: "\<forall>n<length (regions res). rank (regions res ! n) = n + 1"
    by (simp add: regs nth_enumerate_eq toRegion_def)
  have top: "\<forall>a\<in>set (take 5 (sortByScore candidates)).
               \<forall>b\<in>set (drop 5 (sortByScore candidates)). score b \<le> score a"
    using top_beats_rest by blast
  have "length (regions res) \<le> 5" using len by simp
  then show ?thesis
    using doc raster cands count len regs ranks top sortByScore_mset sortByScore_sorted
    by blast
qed

subsection \<open>An all-white raster\<close>

definition white_raster :: "nat \<Rightarrow> nat \<Rightarrow> Raster" where
  "white_raster w h = \<lparr>info_width = w, info_height = h, data = replicate (w * h) 255\<rparr>"

definition load_one :: "string \<Rightarrow> error + nat list" where
  "load_one url = Inr [0]"

definition getSize_letter :: "nat \<Rightarrow> rat \<times> rat" where
  "getSize_letter p = (612, 792)"

definition rasterize_white :: "nat \<Rightarrow> nat \<Rightarrow> nat list \<Rightarrow> int \<Rightarrow> error + Raster" where
  "rasterize_white w h pdfDoc pageNumber = Inr (white_raster w h)"

definition input_small :: FindWhitespaceInput where
  "input_small =
     \<lparr>fw_documentId = ''d1'', fw_minWidthInches = Some (1 / 100),
      fw_minHeightInches = Some (1 / 100), fw_minWidth = None, fw_minHeight = None,
      fw_page = None, fw_pageNumber = None, fw_prefer = None\<rparr>"

lemma white_raster_sel [simp]:
  "info_width (white_raster w h) = w" "info_height (white_raster w h) = h"
  "data (white_raster w h) = replicate (w * h) 255"
  by (simp_all add: white_raster_def)

lemma isWhite_white:
  assumes "j < h" and "i < w"
  shows "isWhite (replicate (w * h) 255) (j * w + i) = 1"
proof -
  have "j * w + i < Suc j * w" using assms(2) by simp
  also have "\<dots> \<le> h * w" using assms(1) by (intro mult_le_mono1) simp
  finally have "j * w + i < w * h" by (simp add: mult.commute)
  then show ?thesis by (simp add: isWhite_def threshold_def)
qed

lemma whiteCount_white:
  assumes "y \<le> h" and "x \<le> w"
  shows "whiteCount (replicate (w * h) 255) w y x = int y * int x"
proof -
  have "whiteCount (replicate (w * h) 255) w y x = (\<Sum>j<y. \<Sum>i<x. 1)"
    unfolding whiteCount_def using assms by (intro sum.cong refl isWhite_white) auto
  then show ?thesis by simp
qed

lemma regionIsClear_white:
  assumes "0 \<le> x1" "x1 \<le> x2" "x2 \<le> int w" "0 \<le> y1" "y1 \<le> y2" "y2 \<le> int h"
  shows "regionIsClear (buildIntegral (white_raster w h)) x1 y1 x2 y2 = Inr True"
proof -
  let ?I = "buildIntegral (white_raster w h)"
  have table: "tableShape w h ?I" "rowsDone (replicate (w * h) 255) w h ?I"
    using buildIntegral_correct [of "white_raster w h"] by simp_all
  have read: "readIntegral ?I y x = Inr (Some (y * x))"
    if "0 \<le> y" "y \<le> int h" "0 \<le> x" "x \<le> int w" for y x
    using readIntegral_table [OF table that] whiteCount_white [of "nat y" h "nat x" w] that
    by simp
  have "readIntegral ?I y2 x2 = Inr (Some (y2 * x2))" "readIntegral ?I y1 x2 = Inr (Some (y1 * x2))"
    "readIntegral ?I y2 x1 = Inr (Some (y2 * x1))" "readIntegral ?I y1 x1 = Inr (Some (y1 * x1))"
    using assms by (auto intro!: read)
  then show ?thesis by (simp add: regionIsClear_def algebra_simps)
qed

lemma toDouble_hundredth: "toDouble (1 / 100) = 5764607523034235 / 576460752303423488"
  by code_simp

text \<open>The double \<open>0.1\<close>, whose bits are \<open>0x3FB999999999999A\<close>.\<close>

lemma toDouble_tenth: "toDouble (1 / 10) = 3602879701896397 / 36028797018963968"
  by code_simp

lemma toDouble_dpi: "toDouble (of_int dpi) = 150"
  unfolding dpi_def by code_simp

lemma floor_one_hundredth: "\<lfloor>fmul (1 / 100) (of_int dpi)\<rfloor> = 1"
  unfolding fmul_def toDouble_hundredth toDouble_dpi by code_simp






definition scan_example :: Scan where
  "scan_example = scanOf (white_raster 151 157) (1 / 100) (1 / 100) ''bottom-right''"

lemma scan_example_sel:
  "sc_width scan_example = 151" "sc_height scan_example = 157"
  "minWidthPx scan_example = 1" "minHeightPx scan_example = 1"
  "sc_integral scan_example = buildIntegral (white_raster 151 157)"
  "sc_prefer scan_example = ''bottom-right''"
  by (simp_all add: scan_example_def scanOf_def floor_one_hundredth)

lemma scoreAt_example: "scoreAt scan_example 75 y = 1 / 2 + of_int y / 156"
  by (simp add: scoreAt_def scan_example_sel Let_def)

lemma scanRow_example:
  assumes "75 \<le> y" "y \<le> 81"
  shows "scanRow scan_example y 75 cs
         = Inr (cs @ [\<lparr>c_x = 75, c_y = y, score = 1 / 2 + of_int y / 156\<rparr>])"
proof -
  have clear: "regionIsClear (buildIntegral (white_raster 151 157)) 75 y 76 (y + 1) = Inr True"
    using assms by (intro regionIsClear_white) simp_all
  have stop: "scanRow scan_example y 76 cs' = Inr cs'" for cs'
    by (subst scanRow.simps) (simp add: scan_example_sel marginPx_def)
  show ?thesis
    by (subst scanRow.simps)
       (simp add: scan_example_sel marginPx_def clear stepX_def stop scoreAt_example)
qed

definition candidates_example :: "Candidate list" where
  "candidates_example =
     map (\<lambda>y. \<lparr>c_x = 75, c_y = y, score = 1 / 2 + of_int y / 156\<rparr>) [75, 76, 77, 78, 79, 80, 81]"

lemma findCandidates_example: "findCandidates scan_example = Inr candidates_example"
  unfolding findCandidates_def marginPx_def candidates_example_def
  by (simp add: scanRows.simps [of scan_example] scan_example_sel marginPx_def stepY_def
      scanRow_example)

lemma length_candidates_example: "length candidates_example = 7"
  by (simp add: candidates_example_def)

lemma sortByScore_example:
  "sortByScore candidates_example =
     map (\<lambda>y. \<lparr>c_x = 75, c_y = y, score = 1 / 2 + of_int y / 156\<rparr>) [81, 80, 79, 78, 77, 76, 75]"
  by (simp add: sortByScore_def candidates_example_def)

definition regions_example :: "Region list" where
  "regions_example =
     [\<lparr>rank = 1, xInches = 1 / 2, yInches = 75 / 150, xPoints = 36, yPoints = 36,
       widthInches = 1 / 100, heightInches = 1 / 100\<rparr>,
      \<lparr>rank = 2, xInches = 1 / 2, yInches = 76 / 150, xPoints = 36, yPoints = 76 / 150 * 72,
       widthInches = 1 / 100, heightInches = 1 / 100\<rparr>,
      \<lparr>rank = 3, xInches = 1 / 2, yInches = 77 / 150, xPoints = 36, yPoints = 77 / 150 * 72,
       widthInches = 1 / 100, heightInches = 1 / 100\<rparr>,
      \<lparr>rank = 4, xInches = 1 / 2, yInches = 78 / 150, xPoints = 36, yPoints = 78 / 150 * 72,
       widthInches = 1 / 100, heightInches = 1 / 100\<rparr>,
      \<lparr>rank = 5, xInches = 1 / 2, yInches = 79 / 150, xPoints = 36, yPoints = 79 / 150 * 72,
       widthInches = 1 / 100, heightInches = 1 / 100\<rparr>]"

definition result_seven :: WhitespaceResult where
  "result_seven =
     \<lparr>ws_page = 1, pageWidthInches = 17 / 2, pageHeightInches = 11,
      searchedWidthInches = 1 / 100, searchedHeightInches = 1 / 100,
      searchedPrefer = ''bottom-right'', found = True, candidatesFound = 7,
      regions = regions_example\<rparr>"

lemma find_whitespace_white_157:
  "find_whitespace load_one getSize_letter (rasterize_white 151 157) input_small one_document
   = Inr result_seven"
proof -
  have dl: "downloadPdfFromS3 load_one ''d1'' one_document = Inr [0]"
    by (simp add: downloadPdfFromS3_def one_document_def truthy_def load_one_def)
  have inp: "pageToCheckOf input_small = 1" "minWidthInchesOf input_small = 1 / 100"
    "minHeightInchesOf input_small = 1 / 100" "preferOf input_small = ''bottom-right''"
    "fw_documentId input_small = ''d1''"
    by (simp_all add: input_small_def pageToCheckOf_def minWidthInchesOf_def
        minHeightInchesOf_def preferOf_def)
  have search: "searchRaster (white_raster 151 157) (612, 792) 1 (1 / 100) (1 / 100) ''bottom-right''
      = Inr result_seven"
    unfolding searchRaster_def Let_def scan_example_def [symmetric]
    by (simp add: findCandidates_example sortByScore_example toRegion_def
        result_seven_def regions_example_def scan_example_sel dpi_def length_candidates_example)
  show ?thesis
    by (simp add: find_whitespace_def dl inp rasterize_white_def getSize_letter_def search)
qed

theorem at_most_five_regions_witness:
  "length (regions result_seven) \<le> 5
   \<and> (\<exists>pdfDoc raster candidates.
        downloadPdfFromS3 load_one (fw_documentId input_small) one_document = Inr pdfDoc
      \<and> rasterize_white 151 157 pdfDoc (pageToCheckOf input_small) = Inr raster
      \<and> findCandidates (scanOf raster (minWidthInchesOf input_small)
            (minHeightInchesOf input_small) (preferOf input_small)) = Inr candidates
      \<and> candidatesFound result_seven = length candidates
      \<and> length (regions result_seven) = min 5 (length candidates)
      \<and> mset (sortByScore candidates) = mset candidates
      \<and> sorted_wrt (\<lambda>a b. score b \<le> score a) (sortByScore candidates)
      \<and> regions result_seven
          = map (toRegion (scanOf raster (minWidthInchesOf input_small)
                   (minHeightInchesOf input_small) (preferOf input_small))
                   (minWidthInchesOf input_small) (minHeightInchesOf input_small))
              (enumerate 0 (take 5 (sortByScore candidates)))
      \<and> (\<forall>n<length (regions result_seven). rank (regions result_seven ! n) = n + 1)
      \<and> (\<forall>a\<in>set (take 5 (sortByScore candidates)).
           \<forall>b\<in>set (drop 5 (sortByScore candidates)). score b \<le> score a))"
  by (rule at_most_five_regions [OF find_whitespace_white_157])

subsection \<open>A raster with one dark column\<close>



















end
